theory Spec2Isabelle
  imports Main "HOL-Library.AList" "HOL-Library.Char_ord" "HOL-Library.List_Lexorder"
    "HOL-Library.Multiset"
begin

section \<open>Python values and dictionaries\<close>

text \<open>
  The two scripts pass comments around as Python dictionaries with string keys. The
  values that the field contract of the scripts allows are the JSON scalars: null, a
  boolean, an integer, a string. They are the values of this development; floating
  point numbers and nested lists or objects as field values are not covered.
\<close>

datatype pyval = PNone | PBool bool | PInt int | PStr string

text \<open>Exceptions, each with the text that \<open>str(e)\<close> gives.\<close>

datatype error =
    FileNotFoundError string
  | JSONDecodeError string
  | ValueError string
  | TypeError string
  | AttributeError string
  | OtherException string

fun err_str :: "error \<Rightarrow> string" where
  "err_str (FileNotFoundError m) = m"
| "err_str (JSONDecodeError m) = m"
| "err_str (ValueError m) = m"
| "err_str (TypeError m) = m"
| "err_str (AttributeError m) = m"
| "err_str (OtherException m) = m"

fun is_JSONDecodeError :: "error \<Rightarrow> bool" where
  "is_JSONDecodeError (JSONDecodeError m) = True"
| "is_JSONDecodeError e = False"

fun is_FileNotFoundError :: "error \<Rightarrow> bool" where
  "is_FileNotFoundError (FileNotFoundError m) = True"
| "is_FileNotFoundError e = False"

text \<open>Truth value testing, as \<open>if x:\<close> and \<open>x and y\<close> do it.\<close>

fun truthy :: "pyval \<Rightarrow> bool" where
  "truthy PNone = False"
| "truthy (PBool b) = b"
| "truthy (PInt i) = (i \<noteq> 0)"
| "truthy (PStr s) = (s \<noteq> [])"

text \<open>
  Python's \<open>==\<close> on these values: a boolean is an integer (\<open>True == 1\<close>), values of
  different kinds are otherwise unequal.
\<close>

fun py_eq :: "pyval \<Rightarrow> pyval \<Rightarrow> bool" where
  "py_eq PNone PNone = True"
| "py_eq (PBool a) (PBool b) = (a = b)"
| "py_eq (PBool a) (PInt i) = ((if a then 1 else 0) = i)"
| "py_eq (PInt i) (PBool a) = (i = (if a then 1 else 0))"
| "py_eq (PInt i) (PInt j) = (i = j)"
| "py_eq (PStr s) (PStr t) = (s = t)"
| "py_eq a b = False"

text \<open>
  A dictionary is an association list in insertion order. \<open>d[k] = v\<close> replaces the value
  of a key that is there and appends a new key at the end, which is \<open>AList.update\<close>.
\<close>

type_synonym pydict = "(string \<times> pyval) list"

definition dict_get :: "pydict \<Rightarrow> string \<Rightarrow> pyval" where
  \<comment> \<open>\<open>d.get(k)\<close>\<close>
  "dict_get d k = (case map_of d k of None \<Rightarrow> PNone | Some v \<Rightarrow> v)"

definition dict_get_default :: "pydict \<Rightarrow> string \<Rightarrow> pyval \<Rightarrow> pyval" where
  \<comment> \<open>\<open>d.get(k, default)\<close>\<close>
  "dict_get_default d k dflt = (case map_of d k of None \<Rightarrow> dflt | Some v \<Rightarrow> v)"

definition dict_set :: "pydict \<Rightarrow> string \<Rightarrow> pyval \<Rightarrow> pydict" where
  \<comment> \<open>\<open>d[k] = v\<close>\<close>
  "dict_set d k v = AList.update k v d"

definition dict_has :: "pydict \<Rightarrow> string \<Rightarrow> bool" where
  \<comment> \<open>\<open>k in d\<close>\<close>
  "dict_has d k = (map_of d k \<noteq> None)"

section \<open>The classifier: \<open>analyze_comment_with_ai\<close>\<close>

text \<open>
  The value that \<open>json.loads\<close> returns: an object, an array or a scalar. Only an object
  has the method \<open>get\<close>.
\<close>

datatype json_top = JObject pydict | JArray "pyval list" | JScalar pyval

text \<open>
  What \<open>client.chat.completions.create\<close> does: it raises, or it returns a response
  without choices, or a response whose first choice has the message content given
  (\<open>None\<close> when the message has no content).
\<close>

datatype api_response = ApiRaises error | NoChoices | Choice "string option"

text \<open>
  The API client and the JSON parser are parameters. The client answers the request
  number \<open>n\<close> of the run for the comment text given; the counter of requests is the state
  that the classifier threads.
\<close>

type_synonym client = "nat \<Rightarrow> pyval \<Rightarrow> api_response"
type_synonym json_loads = "string \<Rightarrow> error + json_top"

fun type_name :: "json_top \<Rightarrow> string" where
  "type_name (JObject d) = ''dict''"
| "type_name (JArray xs) = ''list''"
| "type_name (JScalar PNone) = ''NoneType''"
| "type_name (JScalar (PBool b)) = ''bool''"
| "type_name (JScalar (PInt i)) = ''int''"
| "type_name (JScalar (PStr s)) = ''str''"

definition set_analysis :: "pydict \<Rightarrow> pyval \<Rightarrow> pyval \<Rightarrow> pyval \<Rightarrow> pyval \<Rightarrow> pydict" where
  \<comment> \<open>the four assignments that every branch of the classifier makes, in their order\<close>
  "set_analysis comment off ty ex sev =
     dict_set (dict_set (dict_set (dict_set comment ''is_offensive'' off)
       ''offense_type'' ty) ''explanation'' ex) ''severity'' sev"

definition json_loads_content :: "json_loads \<Rightarrow> string option \<Rightarrow> error + json_top" where
  \<comment> \<open>\<open>json.loads(content)\<close>; a content that is \<open>None\<close> is a \<open>TypeError\<close>\<close>
  "json_loads_content loads content =
     (case content of
        None \<Rightarrow> Inl (TypeError ''the JSON object must be str, bytes or bytearray, not NoneType'')
      | Some s \<Rightarrow> loads s)"

definition apply_analysis :: "json_top \<Rightarrow> pydict \<Rightarrow> error + pydict" where
  \<comment> \<open>lines 117 to 120: the four \<open>analysis.get\<close>, an \<open>AttributeError\<close> on a value that is no object\<close>
  "apply_analysis analysis comment =
     (case analysis of
        JObject a \<Rightarrow>
          Inr (set_analysis comment
                 (dict_get_default a ''is_offensive'' (PBool False))
                 (dict_get a ''offense_type'')
                 (dict_get a ''explanation'')
                 (dict_get a ''severity''))
      | _ \<Rightarrow>
          Inl (AttributeError ([CHR 0x27] @ type_name analysis @ [CHR 0x27]
                 @ '' object has no attribute '' @ [CHR 0x27] @ ''get'' @ [CHR 0x27])))"

definition try_body :: "json_loads \<Rightarrow> api_response \<Rightarrow> pydict \<Rightarrow> error + pydict" where
  \<comment> \<open>the body of the outer \<open>try\<close>, lines 107 to 131: \<open>Inl\<close> is an exception that leaves it\<close>
  "try_body loads response comment =
     (case response of
        ApiRaises e \<Rightarrow> Inl e
      | NoChoices \<Rightarrow>
          Inr (set_analysis comment (PBool False) PNone
                 (PStr ''No response from AI model.'') PNone)
      | Choice content \<Rightarrow>
          (case json_loads_content loads content of
             Inl e \<Rightarrow>
               if is_JSONDecodeError e
               then Inr (set_analysis comment (PBool True) (PStr ''error'')
                           (PStr ''Error decoding AI analysis response.'') (PInt 3))
               else Inl e
           | Inr analysis \<Rightarrow> apply_analysis analysis comment))"

definition analyze_comment_with_ai ::
  "client \<Rightarrow> json_loads \<Rightarrow> nat \<Rightarrow> pydict \<Rightarrow> nat \<times> pydict" where
  \<comment> \<open>the result is the number of requests issued so far and the comment as updated\<close>
  "analyze_comment_with_ai client loads n comment =
     (if truthy (dict_get comment ''is_offensive'')
         \<and> py_eq (dict_get comment ''offense_type'') (PStr ''profanity'')
      then (n, dict_set comment ''severity'' (PInt 1))
      else
        let text = dict_get_default comment ''comment_text'' (PStr '''') in
        (case try_body loads (client n text) comment of
           Inr comment' \<Rightarrow> (Suc n, comment')
         | Inl e \<Rightarrow>
             (Suc n, set_analysis comment (PBool True) (PStr ''api_error'')
                       (PStr (''Error during AI analysis: '' @ err_str e)) (PInt 4))))"

section \<open>The profanity pre-filter and the processing loop\<close>

text \<open>
  \<open>profanity.contains_profanity\<close> of the library better_profanity is a parameter: a
  predicate on the value of \<open>comment_text\<close>. The loop of \<open>pre_filter_comments\<close> carries
  the list built so far and the count that the function prints at its end.
\<close>

definition flag_profane :: "pydict \<Rightarrow> pydict" where
  \<comment> \<open>lines 70 to 72\<close>
  "flag_profane comment =
     dict_set (dict_set (dict_set comment ''is_offensive'' (PBool True))
       ''offense_type'' (PStr ''profanity''))
       ''explanation'' (PStr ''Flagged by better_profanity'')"

fun pre_filter_loop ::
  "(pyval \<Rightarrow> bool) \<Rightarrow> pydict list \<Rightarrow> pydict list \<Rightarrow> nat \<Rightarrow> pydict list \<times> nat" where
  "pre_filter_loop contains_profanity [] filtered_comments profane_count =
     (filtered_comments, profane_count)"
| "pre_filter_loop contains_profanity (comment # rest) filtered_comments profane_count =
     (let text = dict_get_default comment ''comment_text'' (PStr '''') in
      if contains_profanity text
      then pre_filter_loop contains_profanity rest
             (filtered_comments @ [flag_profane comment]) (profane_count + 1)
      else pre_filter_loop contains_profanity rest
             (filtered_comments @ [comment]) profane_count)"

definition pre_filter_comments :: "(pyval \<Rightarrow> bool) \<Rightarrow> pydict list \<Rightarrow> pydict list" where
  "pre_filter_comments contains_profanity comments =
     fst (pre_filter_loop contains_profanity comments [] 0)"

text \<open>
  \<open>process_comments\<close> analyses a copy of each comment in turn; the request counter goes
  from one call of the classifier to the next.
\<close>

fun analyze_all :: "client \<Rightarrow> json_loads \<Rightarrow> nat \<Rightarrow> pydict list \<Rightarrow> nat \<times> pydict list" where
  "analyze_all client loads n [] = (n, [])"
| "analyze_all client loads n (comment # rest) =
     (case analyze_comment_with_ai client loads n comment of
        (n', analyzed) \<Rightarrow>
          (case analyze_all client loads n' rest of
             (n'', analyzed_comments) \<Rightarrow> (n'', analyzed # analyzed_comments)))"

definition process_comments ::
  "client \<Rightarrow> json_loads \<Rightarrow> (pyval \<Rightarrow> bool) \<Rightarrow> nat \<Rightarrow> pydict list \<Rightarrow> bool
     \<Rightarrow> nat \<times> pydict list" where
  "process_comments client loads contains_profanity n comments pre_filter =
     analyze_all client loads n
       (if pre_filter then pre_filter_comments contains_profanity comments else comments)"

section \<open>Properties of the classifier\<close>

definition analysis_fields :: "string list" where
  "analysis_fields = [''is_offensive'', ''offense_type'', ''explanation'', ''severity'']"

definition skips_request :: "pydict \<Rightarrow> bool" where
  \<comment> \<open>the test of line 82: the comment was resolved by the pre-filter\<close>
  "skips_request comment =
     (truthy (dict_get comment ''is_offensive'')
      \<and> py_eq (dict_get comment ''offense_type'') (PStr ''profanity''))"

lemma map_of_dict_set:
  "map_of (dict_set d k v) k' = (if k' = k then Some v else map_of d k')"
  by (simp add: dict_set_def update_conv')

lemma dict_get_set: "dict_get (dict_set d k v) k' = (if k' = k then v else dict_get d k')"
  by (simp add: dict_get_def map_of_dict_set)

lemma map_of_set_analysis:
  "map_of (set_analysis c off ty ex sev) k =
     (if k = ''severity'' then Some sev
      else if k = ''explanation'' then Some ex
      else if k = ''offense_type'' then Some ty
      else if k = ''is_offensive'' then Some off
      else map_of c k)"
  by (simp add: set_analysis_def map_of_dict_set)

lemma dict_get_set_analysis:
  "dict_get (set_analysis c off ty ex sev) k =
     (if k = ''severity'' then sev
      else if k = ''explanation'' then ex
      else if k = ''offense_type'' then ty
      else if k = ''is_offensive'' then off
      else dict_get c k)"
  by (simp add: dict_get_def map_of_set_analysis)

lemma analysis_of_set_analysis:
  "dict_get (set_analysis c off ty ex sev) ''is_offensive'' = off"
  "dict_get (set_analysis c off ty ex sev) ''offense_type'' = ty"
  "dict_get (set_analysis c off ty ex sev) ''explanation'' = ex"
  "dict_get (set_analysis c off ty ex sev) ''severity'' = sev"
  by (simp_all add: dict_get_set_analysis)

lemma apply_analysis_shape:
  "apply_analysis a c = Inr c' \<Longrightarrow> \<exists>off ty ex sev. c' = set_analysis c off ty ex sev"
  by (cases a) (auto simp: apply_analysis_def)

lemma try_body_shape:
  "try_body loads r c = Inr c' \<Longrightarrow> \<exists>off ty ex sev. c' = set_analysis c off ty ex sev"
  unfolding try_body_def
  by (cases r) (auto split: sum.splits if_splits dest: apply_analysis_shape)

lemma analyze_shape:
  "snd (analyze_comment_with_ai client loads n c) = dict_set c ''severity'' (PInt 1)
   \<or> (\<exists>off ty ex sev.
         snd (analyze_comment_with_ai client loads n c) = set_analysis c off ty ex sev)"
  unfolding analyze_comment_with_ai_def Let_def
  by (auto split: sum.splits dest: try_body_shape)

lemma not_analysis_field:
  "k \<notin> set analysis_fields \<Longrightarrow>
     k \<noteq> ''is_offensive'' \<and> k \<noteq> ''offense_type'' \<and> k \<noteq> ''explanation'' \<and> k \<noteq> ''severity''"
  unfolding analysis_fields_def by (simp del: list.inject)

lemma analyze_frame_key:
  assumes "k \<noteq> ''is_offensive''" "k \<noteq> ''offense_type''" "k \<noteq> ''explanation''"
    "k \<noteq> ''severity''"
  shows "map_of (snd (analyze_comment_with_ai client loads n comment)) k = map_of comment k"
  using analyze_shape [of client loads n comment] assms
  by (auto simp: map_of_dict_set map_of_set_analysis simp del: list.inject)

lemma analyze_with_request:
  "\<not> skips_request comment \<Longrightarrow>
     analyze_comment_with_ai client loads n comment =
       (Suc n,
        case try_body loads
               (client n (dict_get_default comment ''comment_text'' (PStr ''''))) comment of
          Inr comment' \<Rightarrow> comment'
        | Inl e \<Rightarrow>
            set_analysis comment (PBool True) (PStr ''api_error'')
              (PStr (''Error during AI analysis: '' @ err_str e)) (PInt 4))"
  by (simp add: analyze_comment_with_ai_def skips_request_def Let_def split: sum.splits)

lemma analyze_without_request:
  "skips_request comment \<Longrightarrow>
     analyze_comment_with_ai client loads n comment = (n, dict_set comment ''severity'' (PInt 1))"
  by (simp add: analyze_comment_with_ai_def skips_request_def)

text \<open>
  C10. On every path of \<open>analyze_comment_with_ai\<close> the fields \<open>comment_id\<close>, \<open>username\<close> and
  \<open>comment_text\<close> of the comment are what they were, present or absent, and so is every
  key other than \<open>is_offensive\<close>, \<open>offense_type\<close>, \<open>explanation\<close> and \<open>severity\<close>: only
  these four are assigned.
\<close>

theorem analyze_comment_with_ai_frame:
  "map_of (snd (analyze_comment_with_ai client loads n comment)) ''comment_id''
     = map_of comment ''comment_id''
   \<and> map_of (snd (analyze_comment_with_ai client loads n comment)) ''username''
     = map_of comment ''username''
   \<and> map_of (snd (analyze_comment_with_ai client loads n comment)) ''comment_text''
     = map_of comment ''comment_text''
   \<and> (\<forall>k. k \<notin> set analysis_fields \<longrightarrow>
         map_of (snd (analyze_comment_with_ai client loads n comment)) k = map_of comment k)"
proof -
  have "map_of (snd (analyze_comment_with_ai client loads n comment)) ''comment_id''
          = map_of comment ''comment_id''"
    by (rule analyze_frame_key) simp_all
  moreover
  have "map_of (snd (analyze_comment_with_ai client loads n comment)) ''username''
          = map_of comment ''username''"
    by (rule analyze_frame_key) simp_all
  moreover
  have "map_of (snd (analyze_comment_with_ai client loads n comment)) ''comment_text''
          = map_of comment ''comment_text''"
    by (rule analyze_frame_key) simp_all
  moreover
  have "\<forall>k. k \<notin> set analysis_fields \<longrightarrow>
          map_of (snd (analyze_comment_with_ai client loads n comment)) k = map_of comment k"
    using not_analysis_field by (blast intro: analyze_frame_key)
  ultimately show ?thesis by blast
qed

lemma skips_request_keeps_offensive:
  "skips_request comment \<Longrightarrow>
     truthy (dict_get (snd (analyze_comment_with_ai client loads n comment)) ''is_offensive'')"
  by (simp add: analyze_without_request dict_get_set) (simp add: skips_request_def)

lemma try_body_ApiRaises: "try_body loads (ApiRaises e) comment = Inl e"
  by (simp add: try_body_def)

lemma try_body_NoChoices:
  "try_body loads NoChoices comment =
     Inr (set_analysis comment (PBool False) PNone (PStr ''No response from AI model.'') PNone)"
  by (simp add: try_body_def)

lemma try_body_undecodable:
  "loads s = Inl e \<Longrightarrow> is_JSONDecodeError e \<Longrightarrow>
     try_body loads (Choice (Some s)) comment =
       Inr (set_analysis comment (PBool True) (PStr ''error'')
              (PStr ''Error decoding AI analysis response.'') (PInt 3))"
  by (simp add: try_body_def json_loads_content_def)

lemma try_body_object:
  "loads s = Inr (JObject a) \<Longrightarrow>
     try_body loads (Choice (Some s)) comment =
       Inr (set_analysis comment (dict_get_default a ''is_offensive'' (PBool False))
              (dict_get a ''offense_type'') (dict_get a ''explanation'') (dict_get a ''severity''))"
  by (simp add: try_body_def json_loads_content_def apply_analysis_def)

text \<open>
  The handler of \<open>JSONDecodeError\<close>: a content that is a text which \<open>json.loads\<close> does
  not decode.
\<close>

lemma undecodable_response_marks_error:
  assumes "\<not> skips_request comment"
    and "client n (dict_get_default comment ''comment_text'' (PStr '''')) = Choice (Some s)"
    and "loads s = Inl e"
    and "is_JSONDecodeError e"
  shows "analyze_comment_with_ai client loads n comment =
           (Suc n, set_analysis comment (PBool True) (PStr ''error'')
                     (PStr ''Error decoding AI analysis response.'') (PInt 3))
         \<and> dict_get (snd (analyze_comment_with_ai client loads n comment)) ''is_offensive''
             = PBool True
         \<and> dict_get (snd (analyze_comment_with_ai client loads n comment)) ''offense_type''
             = PStr ''error''
         \<and> dict_get (snd (analyze_comment_with_ai client loads n comment)) ''explanation''
             = PStr ''Error decoding AI analysis response.''
         \<and> dict_get (snd (analyze_comment_with_ai client loads n comment)) ''severity''
             = PInt 3"
proof -
  have "analyze_comment_with_ai client loads n comment =
          (Suc n, set_analysis comment (PBool True) (PStr ''error'')
                    (PStr ''Error decoding AI analysis response.'') (PInt 3))"
    using assms by (simp add: analyze_with_request try_body_undecodable)
  then show ?thesis by (simp add: analysis_of_set_analysis)
qed

text \<open>
  A response whose content is missing, or is valid JSON that is no object, does not reach
  the handler of \<open>JSONDecodeError\<close>: the \<open>TypeError\<close> or \<open>AttributeError\<close> is caught by
  the outer handler, with the classification of an API error.
\<close>

lemma content_without_object_marks_api_error:
  assumes "\<not> skips_request comment"
    and "client n (dict_get_default comment ''comment_text'' (PStr '''')) = Choice content"
    and "content = None \<or> (\<exists>s xs. content = Some s \<and> loads s = Inr (JArray xs))
           \<or> (\<exists>s v. content = Some s \<and> loads s = Inr (JScalar v))"
  shows "dict_get (snd (analyze_comment_with_ai client loads n comment)) ''offense_type''
           = PStr ''api_error''
         \<and> dict_get (snd (analyze_comment_with_ai client loads n comment)) ''severity''
           = PInt 4"
  using assms
  by (auto simp: analyze_with_request try_body_def json_loads_content_def apply_analysis_def
      analysis_of_set_analysis)

lemma try_body_other_error:
  assumes "content = None \<or> (\<exists>s e. content = Some s \<and> loads s = Inl e \<and> \<not> is_JSONDecodeError e)
           \<or> (\<exists>s xs. content = Some s \<and> loads s = Inr (JArray xs))
           \<or> (\<exists>s v. content = Some s \<and> loads s = Inr (JScalar v))"
  shows "\<exists>e. try_body loads (Choice content) comment = Inl e"
  using assms
  by (auto simp: try_body_def json_loads_content_def apply_analysis_def)

text \<open>
  C5, as the code has it. A request is issued and the response has a choice. When its
  content is a text on which \<open>json.loads\<close> raises \<open>JSONDecodeError\<close>, the comment is
  marked offensive with offense type \<open>error\<close>, the fixed explanation and severity 3.
  When the content is missing, or the parser raises another exception on it, or it is
  valid JSON that is no object, the exception reaches the outer handler: the comment is
  marked offensive with offense type \<open>api_error\<close>, severity 4 and an explanation that
  starts with \<open>Error during AI analysis: \<close>.
\<close>

theorem response_content_classification:
  assumes "\<not> skips_request comment"
    and "client n (dict_get_default comment ''comment_text'' (PStr '''')) = Choice content"
  shows "((\<exists>s e. content = Some s \<and> loads s = Inl e \<and> is_JSONDecodeError e) \<longrightarrow>
            analyze_comment_with_ai client loads n comment =
              (Suc n, set_analysis comment (PBool True) (PStr ''error'')
                        (PStr ''Error decoding AI analysis response.'') (PInt 3))
            \<and> dict_get (snd (analyze_comment_with_ai client loads n comment)) ''offense_type''
                = PStr ''error''
            \<and> dict_get (snd (analyze_comment_with_ai client loads n comment)) ''severity''
                = PInt 3)
         \<and> ((content = None
              \<or> (\<exists>s e. content = Some s \<and> loads s = Inl e \<and> \<not> is_JSONDecodeError e)
              \<or> (\<exists>s xs. content = Some s \<and> loads s = Inr (JArray xs))
              \<or> (\<exists>s v. content = Some s \<and> loads s = Inr (JScalar v))) \<longrightarrow>
            (\<exists>msg. analyze_comment_with_ai client loads n comment =
                     (Suc n, set_analysis comment (PBool True) (PStr ''api_error'')
                               (PStr (''Error during AI analysis: '' @ msg)) (PInt 4)))
            \<and> dict_get (snd (analyze_comment_with_ai client loads n comment)) ''offense_type''
                = PStr ''api_error''
            \<and> dict_get (snd (analyze_comment_with_ai client loads n comment)) ''severity''
                = PInt 4)"
proof (intro conjI impI)
  assume "\<exists>s e. content = Some s \<and> loads s = Inl e \<and> is_JSONDecodeError e"
  then obtain s e where "content = Some s" "loads s = Inl e" "is_JSONDecodeError e"
    by blast
  with assms have eq: "analyze_comment_with_ai client loads n comment =
      (Suc n, set_analysis comment (PBool True) (PStr ''error'')
                (PStr ''Error decoding AI analysis response.'') (PInt 3))"
    by (simp add: analyze_with_request try_body_undecodable)
  show "analyze_comment_with_ai client loads n comment =
      (Suc n, set_analysis comment (PBool True) (PStr ''error'')
                (PStr ''Error decoding AI analysis response.'') (PInt 3))"
    by (rule eq)
  show "dict_get (snd (analyze_comment_with_ai client loads n comment)) ''offense_type''
          = PStr ''error''"
    by (simp add: eq analysis_of_set_analysis)
  show "dict_get (snd (analyze_comment_with_ai client loads n comment)) ''severity'' = PInt 3"
    by (simp add: eq analysis_of_set_analysis)
next
  assume other: "content = None
      \<or> (\<exists>s e. content = Some s \<and> loads s = Inl e \<and> \<not> is_JSONDecodeError e)
      \<or> (\<exists>s xs. content = Some s \<and> loads s = Inr (JArray xs))
      \<or> (\<exists>s v. content = Some s \<and> loads s = Inr (JScalar v))"
  from try_body_other_error [OF other, of comment]
  obtain e where "try_body loads (Choice content) comment = Inl e" by blast
  with assms have eq: "analyze_comment_with_ai client loads n comment =
      (Suc n, set_analysis comment (PBool True) (PStr ''api_error'')
                (PStr (''Error during AI analysis: '' @ err_str e)) (PInt 4))"
    by (simp add: analyze_with_request)
  then show "\<exists>msg. analyze_comment_with_ai client loads n comment =
      (Suc n, set_analysis comment (PBool True) (PStr ''api_error'')
                (PStr (''Error during AI analysis: '' @ msg)) (PInt 4))"
    by blast
  show "dict_get (snd (analyze_comment_with_ai client loads n comment)) ''offense_type''
          = PStr ''api_error''"
    by (simp add: eq analysis_of_set_analysis)
  show "dict_get (snd (analyze_comment_with_ai client loads n comment)) ''severity'' = PInt 4"
    by (simp add: eq analysis_of_set_analysis)
qed

text \<open>
  C6. When a request is issued and the call of the API raises an exception, the comment
  is marked offensive with offense type \<open>api_error\<close> and severity 4, the explanation is
  the text \<open>Error during AI analysis: \<close> followed by the text of the exception, and the
  classifier returns the comment: the exception does not leave it.
\<close>

theorem api_exception_marks_api_error:
  assumes "\<not> skips_request comment"
    and "client n (dict_get_default comment ''comment_text'' (PStr '''')) = ApiRaises e"
  shows "analyze_comment_with_ai client loads n comment =
           (Suc n, set_analysis comment (PBool True) (PStr ''api_error'')
                     (PStr (''Error during AI analysis: '' @ err_str e)) (PInt 4))
         \<and> dict_get (snd (analyze_comment_with_ai client loads n comment)) ''is_offensive''
             = PBool True
         \<and> dict_get (snd (analyze_comment_with_ai client loads n comment)) ''offense_type''
             = PStr ''api_error''
         \<and> dict_get (snd (analyze_comment_with_ai client loads n comment)) ''severity''
             = PInt 4
         \<and> (\<exists>before after.
               dict_get (snd (analyze_comment_with_ai client loads n comment)) ''explanation''
                 = PStr (before @ err_str e @ after))"
proof -
  have eq: "analyze_comment_with_ai client loads n comment =
          (Suc n, set_analysis comment (PBool True) (PStr ''api_error'')
                    (PStr (''Error during AI analysis: '' @ err_str e)) (PInt 4))"
    using assms by (simp add: analyze_with_request try_body_ApiRaises)
  have "dict_get (snd (analyze_comment_with_ai client loads n comment)) ''explanation''
          = PStr (''Error during AI analysis: '' @ err_str e @ [])"
    by (simp add: eq analysis_of_set_analysis)
  then have "\<exists>before after.
      dict_get (snd (analyze_comment_with_ai client loads n comment)) ''explanation''
        = PStr (before @ err_str e @ after)"
    by blast
  then show ?thesis by (simp add: eq analysis_of_set_analysis)
qed

text \<open>
  C2, as the code has it. A comment that \<open>analyze_comment_with_ai\<close> returns with an
  \<open>is_offensive\<close> that is false came from one of two branches. Either the response had no
  choices: then \<open>offense_type\<close> and \<open>severity\<close> are null and \<open>explanation\<close> is the fixed
  text \<open>No response from AI model.\<close> Or the content was a JSON object: then the four fields
  are what the object holds for them (false, respectively null, for a key it lacks).
\<close>

theorem not_offensive_fields:
  assumes "\<not> truthy (dict_get (snd (analyze_comment_with_ai client loads n comment))
                       ''is_offensive'')"
  shows "(client n (dict_get_default comment ''comment_text'' (PStr '''')) = NoChoices
          \<and> snd (analyze_comment_with_ai client loads n comment) =
              set_analysis comment (PBool False) PNone
                (PStr ''No response from AI model.'') PNone)
         \<or> (\<exists>s a. client n (dict_get_default comment ''comment_text'' (PStr ''''))
                     = Choice (Some s)
               \<and> loads s = Inr (JObject a)
               \<and> snd (analyze_comment_with_ai client loads n comment) =
                   set_analysis comment (dict_get_default a ''is_offensive'' (PBool False))
                     (dict_get a ''offense_type'') (dict_get a ''explanation'')
                     (dict_get a ''severity''))"
proof -
  let ?text = "dict_get_default comment ''comment_text'' (PStr '''')"
  have req: "\<not> skips_request comment"
    using assms skips_request_keeps_offensive by blast
  note step = analyze_with_request [OF req, of client loads n]
  show ?thesis
  proof (cases "client n ?text")
    case (ApiRaises e)
    with assms step show ?thesis
      by (simp add: try_body_ApiRaises analysis_of_set_analysis)
  next
    case NoChoices
    with step show ?thesis by (simp add: try_body_NoChoices)
  next
    case (Choice content)
    show ?thesis
    proof (cases content)
      case None
      with assms step Choice show ?thesis
        by (simp add: try_body_def json_loads_content_def analysis_of_set_analysis)
    next
      case (Some s)
      show ?thesis
      proof (cases "loads s")
        case (Inl e)
        with assms step Choice Some show ?thesis
          by (cases "is_JSONDecodeError e")
             (simp_all add: try_body_def json_loads_content_def analysis_of_set_analysis)
      next
        case (Inr analysis)
        show ?thesis
        proof (cases analysis)
          case (JObject a)
          with step Choice Some Inr show ?thesis by (simp add: try_body_object)
        next
          case (JArray xs)
          with assms step Choice Some Inr show ?thesis
            by (simp add: try_body_def json_loads_content_def apply_analysis_def
                analysis_of_set_analysis)
        next
          case (JScalar v)
          with assms step Choice Some Inr show ?thesis
            by (simp add: try_body_def json_loads_content_def apply_analysis_def
                analysis_of_set_analysis)
        qed
      qed
    qed
  qed
qed

lemma pre_filter_loop_map:
  "pre_filter_loop contains_profanity comments filtered_comments profane_count =
     (filtered_comments
        @ map (\<lambda>c. if contains_profanity (dict_get_default c ''comment_text'' (PStr ''''))
                    then flag_profane c else c) comments,
      profane_count
        + length (filter (\<lambda>c. contains_profanity
                                 (dict_get_default c ''comment_text'' (PStr ''''))) comments))"
  by (induction comments arbitrary: filtered_comments profane_count) (simp_all add: Let_def)

lemma pre_filter_comments_map:
  "pre_filter_comments contains_profanity comments =
     map (\<lambda>c. if contains_profanity (dict_get_default c ''comment_text'' (PStr ''''))
               then flag_profane c else c) comments"
  by (simp add: pre_filter_comments_def pre_filter_loop_map)

lemma flag_profane_fields:
  "dict_get (flag_profane c) ''is_offensive'' = PBool True"
  "dict_get (flag_profane c) ''offense_type'' = PStr ''profanity''"
  "dict_get (flag_profane c) ''explanation'' = PStr ''Flagged by better_profanity''"
  by (simp_all add: flag_profane_def dict_get_set)

lemma skips_request_flag_profane: "skips_request (flag_profane c)"
  by (simp add: skips_request_def flag_profane_fields)

text \<open>
  C3. A comment whose \<open>comment_text\<close> the profanity library matches leaves
  \<open>pre_filter_comments\<close>, at its place in the list, with \<open>is_offensive\<close> true, offense
  type \<open>profanity\<close> and the fixed explanation. The classifier then only sets \<open>severity\<close>
  to 1: the offense type stays, and the request counter is the one it was given, so
  that no request was issued.
\<close>

theorem pre_filtered_profanity_gets_severity_1:
  assumes "i < length comments"
    and "contains_profanity (dict_get_default (comments ! i) ''comment_text'' (PStr ''''))"
  shows "dict_get (pre_filter_comments contains_profanity comments ! i) ''is_offensive''
           = PBool True
         \<and> dict_get (pre_filter_comments contains_profanity comments ! i) ''offense_type''
           = PStr ''profanity''
         \<and> dict_get (pre_filter_comments contains_profanity comments ! i) ''explanation''
           = PStr ''Flagged by better_profanity''
         \<and> analyze_comment_with_ai client loads n
             (pre_filter_comments contains_profanity comments ! i)
           = (n, dict_set (pre_filter_comments contains_profanity comments ! i)
                   ''severity'' (PInt 1))
         \<and> dict_get (snd (analyze_comment_with_ai client loads n
                            (pre_filter_comments contains_profanity comments ! i)))
             ''severity'' = PInt 1
         \<and> dict_get (snd (analyze_comment_with_ai client loads n
                            (pre_filter_comments contains_profanity comments ! i)))
             ''offense_type'' = PStr ''profanity''"
proof -
  have flagged: "pre_filter_comments contains_profanity comments ! i
                   = flag_profane (comments ! i)"
    using assms by (simp add: pre_filter_comments_map)
  have "analyze_comment_with_ai client loads n (flag_profane (comments ! i))
          = (n, dict_set (flag_profane (comments ! i)) ''severity'' (PInt 1))"
    by (rule analyze_without_request) (rule skips_request_flag_profane)
  then show ?thesis
    by (simp add: flagged flag_profane_fields dict_get_set)
qed

section \<open>The classifier on concrete runs\<close>

definition example_comment :: pydict where
  "example_comment =
     [(''comment_id'', PStr ''1''), (''username'', PStr ''ann''),
      (''comment_text'', PStr ''hello there'')]"

definition example_profane :: pydict where
  "example_profane =
     [(''comment_id'', PStr ''2''), (''username'', PStr ''bob''),
      (''comment_text'', PStr ''damn it'')]"

lemma example_comment_requests: "\<not> skips_request example_comment"
  by (simp add: skips_request_def example_comment_def dict_get_def)

lemma example_comment_text:
  "dict_get_default example_comment ''comment_text'' (PStr '''') = PStr ''hello there''"
  by (simp add: example_comment_def dict_get_default_def)

theorem analyze_comment_with_ai_frame_witness:
  "''username'' \<notin> set analysis_fields
   \<and> map_of (snd (analyze_comment_with_ai (\<lambda>n t. NoChoices) (\<lambda>s. Inr (JScalar PNone)) 0
                    example_comment)) ''username'' = Some (PStr ''ann'')"
proof -
  have "map_of example_comment ''username'' = Some (PStr ''ann'')"
    by (simp add: example_comment_def)
  moreover have "''username'' \<notin> set analysis_fields"
    by (simp add: analysis_fields_def)
  ultimately show ?thesis
    using analyze_comment_with_ai_frame
            [of "\<lambda>n t. NoChoices" "\<lambda>s. Inr (JScalar PNone)" 0 example_comment]
    by simp
qed

theorem response_content_classification_witness:
  "\<not> skips_request example_comment
   \<and> is_JSONDecodeError (JSONDecodeError ''Expecting value: line 1 column 1 (char 0)'')
   \<and> dict_get (snd (analyze_comment_with_ai (\<lambda>n t. Choice (Some ''not json''))
                      (\<lambda>s. Inl (JSONDecodeError ''Expecting value: line 1 column 1 (char 0)''))
                      0 example_comment)) ''offense_type'' = PStr ''error''
   \<and> dict_get (snd (analyze_comment_with_ai (\<lambda>n t. Choice (Some ''not json''))
                      (\<lambda>s. Inl (JSONDecodeError ''Expecting value: line 1 column 1 (char 0)''))
                      0 example_comment)) ''severity'' = PInt 3"
proof -
  have resp: "(\<lambda>n t. Choice (Some ''not json'')) (0::nat)
                (dict_get_default example_comment ''comment_text'' (PStr ''''))
              = Choice (Some ''not json'')"
    by simp
  have undecodable: "\<exists>s e. Some ''not json'' = Some s
      \<and> (\<lambda>s. Inl (JSONDecodeError ''Expecting value: line 1 column 1 (char 0)'')) s = Inl e
      \<and> is_JSONDecodeError e"
    by simp
  from response_content_classification
         [where comment = example_comment and client = "\<lambda>n t. Choice (Some ''not json'')"
            and n = 0 and content = "Some ''not json''"
            and loads = "\<lambda>s. Inl (JSONDecodeError ''Expecting value: line 1 column 1 (char 0)'')",
          OF example_comment_requests resp]
       undecodable example_comment_requests
  show ?thesis by (simp add: analysis_of_set_analysis)
qed

text \<open>
  C5 as the claim states it fails on a response whose message has no content, and on
  one whose content is valid JSON but no object (here the array \<open>[1, 2]\<close>): neither is
  valid structured JSON for the classifier, and both are marked \<open>api_error\<close> with severity
  4, not \<open>error\<close> with severity 3.
\<close>

theorem null_content_marks_api_error:
  "dict_get (snd (analyze_comment_with_ai (\<lambda>n t. Choice None) (\<lambda>s. Inr (JScalar PNone)) 0
                    example_comment)) ''offense_type'' = PStr ''api_error''
   \<and> dict_get (snd (analyze_comment_with_ai (\<lambda>n t. Choice None) (\<lambda>s. Inr (JScalar PNone)) 0
                    example_comment)) ''severity'' = PInt 4
   \<and> dict_get (snd (analyze_comment_with_ai (\<lambda>n t. Choice None) (\<lambda>s. Inr (JScalar PNone)) 0
                    example_comment)) ''offense_type'' \<noteq> PStr ''error''
   \<and> dict_get (snd (analyze_comment_with_ai (\<lambda>n t. Choice (Some ''[1, 2]''))
                    (\<lambda>s. Inr (JArray [PInt 1, PInt 2])) 0 example_comment)) ''explanation''
       = PStr (''Error during AI analysis: '' @ [CHR 0x27] @ ''list'' @ [CHR 0x27]
               @ '' object has no attribute '' @ [CHR 0x27] @ ''get'' @ [CHR 0x27])
   \<and> dict_get (snd (analyze_comment_with_ai (\<lambda>n t. Choice (Some ''[1, 2]''))
                    (\<lambda>s. Inr (JArray [PInt 1, PInt 2])) 0 example_comment)) ''severity''
       = PInt 4"
  by (simp add: analyze_with_request [OF example_comment_requests] try_body_def
      json_loads_content_def apply_analysis_def analysis_of_set_analysis)

theorem api_exception_marks_api_error_witness:
  "\<not> skips_request example_comment
   \<and> analyze_comment_with_ai (\<lambda>n t. ApiRaises (OtherException ''Connection error.''))
        (\<lambda>s. Inr (JScalar PNone)) 0 example_comment
     = (Suc 0, set_analysis example_comment (PBool True) (PStr ''api_error'')
                 (PStr ''Error during AI analysis: Connection error.'') (PInt 4))"
  using api_exception_marks_api_error
          [where comment = example_comment
             and client = "\<lambda>n t. ApiRaises (OtherException ''Connection error.'')"
             and n = 0 and e = "OtherException ''Connection error.''"
             and loads = "\<lambda>s. Inr (JScalar PNone)"]
        example_comment_requests
  by simp

text \<open>
  C2 as the claim states it fails where the response has no choices: the comment comes
  back not offensive, and its \<open>explanation\<close> is a text, not null. It fails as well on a
  JSON object that says \<open>is_offensive\<close> false and names an offense type: the fields are
  copied as they are.
\<close>

theorem no_choices_explanation_not_null:
  "dict_get (snd (analyze_comment_with_ai (\<lambda>n t. NoChoices) (\<lambda>s. Inr (JScalar PNone)) 0
                    example_comment)) ''is_offensive'' = PBool False
   \<and> dict_get (snd (analyze_comment_with_ai (\<lambda>n t. NoChoices) (\<lambda>s. Inr (JScalar PNone)) 0
                    example_comment)) ''explanation'' = PStr ''No response from AI model.''
   \<and> dict_get (snd (analyze_comment_with_ai (\<lambda>n t. NoChoices) (\<lambda>s. Inr (JScalar PNone)) 0
                    example_comment)) ''explanation'' \<noteq> PNone"
  by (simp add: analyze_with_request [OF example_comment_requests] try_body_NoChoices
      analysis_of_set_analysis)

lemma not_offensive_object_keeps_type:
  "dict_get (snd (analyze_comment_with_ai (\<lambda>n t. Choice (Some ''{}''))
       (\<lambda>s. Inr (JObject [(''is_offensive'', PBool False), (''offense_type'', PStr ''toxicity'')]))
       0 example_comment)) ''is_offensive'' = PBool False
   \<and> dict_get (snd (analyze_comment_with_ai (\<lambda>n t. Choice (Some ''{}''))
       (\<lambda>s. Inr (JObject [(''is_offensive'', PBool False), (''offense_type'', PStr ''toxicity'')]))
       0 example_comment)) ''offense_type'' = PStr ''toxicity''"
  by (simp add: analyze_with_request [OF example_comment_requests] try_body_object
      map_of_set_analysis dict_get_def dict_get_default_def)

theorem not_offensive_fields_witness:
  "\<not> truthy (dict_get (snd (analyze_comment_with_ai (\<lambda>n t. NoChoices)
                (\<lambda>s. Inr (JScalar PNone)) 0 example_comment)) ''is_offensive'')
   \<and> snd (analyze_comment_with_ai (\<lambda>n t. NoChoices) (\<lambda>s. Inr (JScalar PNone)) 0
            example_comment)
     = set_analysis example_comment (PBool False) PNone
         (PStr ''No response from AI model.'') PNone"
proof -
  have h: "\<not> truthy (dict_get (snd (analyze_comment_with_ai (\<lambda>n t. NoChoices)
                (\<lambda>s. Inr (JScalar PNone)) 0 example_comment)) ''is_offensive'')"
    by (simp add: analyze_with_request [OF example_comment_requests] try_body_NoChoices
        analysis_of_set_analysis)
  from not_offensive_fields [OF h] h show ?thesis by simp
qed

theorem pre_filtered_profanity_gets_severity_1_witness:
  "(1::nat) < length [example_comment, example_profane]
   \<and> (\<lambda>t. t = PStr ''damn it'')
       (dict_get_default ([example_comment, example_profane] ! 1) ''comment_text'' (PStr ''''))
   \<and> dict_get (pre_filter_comments (\<lambda>t. t = PStr ''damn it'')
                 [example_comment, example_profane] ! 1) ''offense_type'' = PStr ''profanity''
   \<and> analyze_comment_with_ai (\<lambda>n t. NoChoices) (\<lambda>s. Inr (JScalar PNone)) 7
        (pre_filter_comments (\<lambda>t. t = PStr ''damn it'') [example_comment, example_profane] ! 1)
     = (7, dict_set (pre_filter_comments (\<lambda>t. t = PStr ''damn it'')
                       [example_comment, example_profane] ! 1) ''severity'' (PInt 1))"
proof -
  have h1: "(1::nat) < length [example_comment, example_profane]" by simp
  have h2: "dict_get_default ([example_comment, example_profane] ! 1) ''comment_text''
              (PStr '''') = PStr ''damn it''"
    by (simp add: example_profane_def dict_get_default_def)
  show ?thesis
    using pre_filtered_profanity_gets_severity_1
            [where i = 1 and comments = "[example_comment, example_profane]"
               and contains_profanity = "\<lambda>t. t = PStr ''damn it''"
               and client = "\<lambda>n t. NoChoices" and loads = "\<lambda>s. Inr (JScalar PNone)"
               and n = 7]
          h1 h2
    by simp
qed

section \<open>The processing loop\<close>

text \<open>
  \<open>process_comments\<close> issues one request for each comment that the pre-filter did not
  resolve, and none for the others; a comment flagged by the pre-filter leaves the
  loop with severity 1 and the offense type \<open>profanity\<close>.
\<close>

lemma analyze_counter:
  "fst (analyze_comment_with_ai client loads n comment)
     = (if skips_request comment then n else Suc n)"
  by (simp add: analyze_with_request analyze_without_request)

lemma analyze_all_counter:
  "fst (analyze_all client loads n comments)
     = n + length (filter (\<lambda>c. \<not> skips_request c) comments)"
proof (induction comments arbitrary: n)
  case Nil
  then show ?case by simp
next
  case (Cons comment rest)
  from Cons [of "fst (analyze_comment_with_ai client loads n comment)"]
    analyze_counter [of client loads n comment]
  show ?case by (simp add: split_beta)
qed

lemma analyze_all_length: "length (snd (analyze_all client loads n comments)) = length comments"
  by (induction comments arbitrary: n) (simp_all add: split_beta)

lemma analyze_all_nth:
  "i < length comments \<Longrightarrow>
     snd (analyze_all client loads n comments) ! i
       = snd (analyze_comment_with_ai client loads
                (n + length (filter (\<lambda>c. \<not> skips_request c) (take i comments)))
                (comments ! i))"
proof (induction comments arbitrary: n i)
  case Nil
  then show ?case by simp
next
  case (Cons comment rest)
  show ?case
  proof (cases i)
    case 0
    then show ?thesis by (simp add: split_beta)
  next
    case (Suc k)
    with Cons.prems have "k < length rest" by simp
    from Cons.IH [OF this, of "fst (analyze_comment_with_ai client loads n comment)"]
      analyze_counter [of client loads n comment] Suc
    show ?thesis by (simp add: split_beta)
  qed
qed

lemma process_comments_profanity:
  assumes "i < length comments"
    and "contains_profanity (dict_get_default (comments ! i) ''comment_text'' (PStr ''''))"
  shows "dict_get (snd (process_comments client loads contains_profanity n comments True) ! i)
           ''severity'' = PInt 1
         \<and> dict_get (snd (process_comments client loads contains_profanity n comments True) ! i)
           ''offense_type'' = PStr ''profanity''"
proof -
  let ?filtered = "pre_filter_comments contains_profanity comments"
  have len: "i < length ?filtered"
    using assms(1) by (simp add: pre_filter_comments_map)
  have flagged: "?filtered ! i = flag_profane (comments ! i)"
    using assms by (simp add: pre_filter_comments_map)
  have "snd (analyze_comment_with_ai client loads m (flag_profane (comments ! i)))
          = dict_set (flag_profane (comments ! i)) ''severity'' (PInt 1)" for m
    by (simp add: analyze_without_request skips_request_flag_profane)
  with analyze_all_nth [OF len, of client loads n] flagged show ?thesis
    by (simp add: process_comments_def dict_get_set flag_profane_fields)
qed


section \<open>The report: \<open>generate_report_json\<close>\<close>

text \<open>
  Python's \<open><\<close> on the values: numbers (a boolean is 0 or 1) compare by value, strings
  by code point in lexicographic order, and every other pair is a \<open>TypeError\<close>, also
  null against null. The text of the error is shortened: it names the two types in
  Python, in an order that depends on the sorting algorithm.
\<close>

fun py_lt :: "pyval \<Rightarrow> pyval \<Rightarrow> error + bool" where
  "py_lt (PInt i) (PInt j) = Inr (i < j)"
| "py_lt (PInt i) (PBool b) = Inr (i < (if b then 1 else 0))"
| "py_lt (PBool a) (PInt j) = Inr ((if a then 1 else 0) < j)"
| "py_lt (PBool a) (PBool b) = Inr (\<not> a \<and> b)"
| "py_lt (PStr s) (PStr t) = Inr (s < t)"
| "py_lt a b = Inl (TypeError ''< not supported between instances'')"

text \<open>
  \<open>sorted(xs, key=lambda x: x.get('severity', 0), reverse=True)\<close>. The sort of Python
  is stable, also with \<open>reverse=True\<close>, and compares keys with \<open><\<close> only, so that its
  result is the stable sort in descending order of the keys: here an insertion sort
  from the right, where an element goes in front of the first later element whose key
  is not greater. A comparison that raises ends the sort with its exception; every
  element of a list of two or more is compared at least once.
\<close>

definition severity_key :: "pydict \<Rightarrow> pyval" where
  "severity_key x = dict_get_default x ''severity'' (PInt 0)"

fun insert_desc :: "pydict \<Rightarrow> pydict list \<Rightarrow> error + pydict list" where
  "insert_desc x [] = Inr [x]"
| "insert_desc x (y # ys) =
     (case py_lt (severity_key x) (severity_key y) of
        Inl e \<Rightarrow> Inl e
      | Inr True \<Rightarrow> (case insert_desc x ys of Inl e \<Rightarrow> Inl e | Inr zs \<Rightarrow> Inr (y # zs))
      | Inr False \<Rightarrow> Inr (x # y # ys))"

fun sorted_by_severity_desc :: "pydict list \<Rightarrow> error + pydict list" where
  "sorted_by_severity_desc [] = Inr []"
| "sorted_by_severity_desc (x # xs) =
     (case sorted_by_severity_desc xs of Inl e \<Rightarrow> Inl e | Inr ys \<Rightarrow> insert_desc x ys)"

text \<open>
  Membership in the set \<open>seen_offense_types\<close> and in the list \<open>top_5_varied\<close> is by
  Python's \<open>==\<close>. Two dictionaries are equal when they have the same keys with equal
  values.
\<close>

definition py_in :: "pyval \<Rightarrow> pyval list \<Rightarrow> bool" where
  "py_in x xs = list_ex (py_eq x) xs"

definition dict_eq :: "pydict \<Rightarrow> pydict \<Rightarrow> bool" where
  "dict_eq a b =
     list_all (\<lambda>k. case (map_of a k, map_of b k) of
                      (Some u, Some v) \<Rightarrow> py_eq u v
                    | _ \<Rightarrow> False)
       (map fst a @ map fst b)"

definition dict_in :: "pydict \<Rightarrow> pydict list \<Rightarrow> bool" where
  "dict_in x xs = list_ex (dict_eq x) xs"

text \<open>The first loop, lines 162 to 171; the \<open>break\<close> returns what was collected.\<close>

fun top_5_loop :: "pydict list \<Rightarrow> pydict list \<Rightarrow> pyval list \<Rightarrow> pydict list" where
  "top_5_loop [] top_5_varied seen_offense_types = top_5_varied"
| "top_5_loop (comment # rest) top_5_varied seen_offense_types =
     (let offense_type = dict_get comment ''offense_type'' in
      if length top_5_varied < 5 then
        if \<not> py_in offense_type seen_offense_types
        then top_5_loop rest (top_5_varied @ [comment]) (seen_offense_types @ [offense_type])
        else if top_5_varied = []
        then top_5_loop rest (top_5_varied @ [comment]) seen_offense_types
        else top_5_loop rest top_5_varied seen_offense_types
      else top_5_varied)"

text \<open>The second loop, lines 175 to 177.\<close>

fun fill_loop :: "pydict list \<Rightarrow> pydict list \<Rightarrow> pydict list" where
  "fill_loop [] top_5_varied = top_5_varied"
| "fill_loop (comment # rest) top_5_varied =
     (if \<not> dict_in comment top_5_varied \<and> length top_5_varied < 5
      then fill_loop rest (top_5_varied @ [comment])
      else fill_loop rest top_5_varied)"

definition top_5_of_sorted :: "pydict list \<Rightarrow> pydict list" where
  \<comment> \<open>lines 159 to 177\<close>
  "top_5_of_sorted sorted_offensive =
     (let top_5_varied = top_5_loop sorted_offensive [] [] in
      if length top_5_varied < 5 then fill_loop sorted_offensive top_5_varied
      else top_5_varied)"

text \<open>
  \<open>Counter\<close> keeps its keys in the order of their first occurrence; a key is found by
  Python's \<open>==\<close>. \<open>counter_get\<close> is the count that the counter holds for a key, 0 for a
  key that it lacks.
\<close>

fun counter_add :: "pyval \<Rightarrow> (pyval \<times> nat) list \<Rightarrow> (pyval \<times> nat) list" where
  "counter_add x [] = [(x, 1)]"
| "counter_add x ((k, n) # m) =
     (if py_eq k x then (k, n + 1) # m else (k, n) # counter_add x m)"

definition Counter :: "pyval list \<Rightarrow> (pyval \<times> nat) list" where
  "Counter xs = foldl (\<lambda>m x. counter_add x m) [] xs"

fun counter_get :: "(pyval \<times> nat) list \<Rightarrow> pyval \<Rightarrow> nat" where
  "counter_get [] t = 0"
| "counter_get ((k, n) # m) t = (if py_eq k t then n else counter_get m t)"

record report =
  total_comments :: nat
  num_offensive_comments :: nat
  offense_type_breakdown :: "(pyval \<times> nat) list"
  top_5_most_severe_offensive_comments_varied :: "pydict list"

definition offensive_comments_of :: "pydict list \<Rightarrow> pydict list" where
  \<comment> \<open>line 152\<close>
  "offensive_comments_of analyzed_comments =
     filter (\<lambda>c. truthy (dict_get c ''is_offensive'')) analyzed_comments"

definition offense_type_breakdown_of :: "pydict list \<Rightarrow> (pyval \<times> nat) list" where
  \<comment> \<open>line 182\<close>
  "offense_type_breakdown_of offensive_comments =
     Counter (map (\<lambda>c. dict_get c ''offense_type'')
                (filter (\<lambda>c. truthy (dict_get c ''offense_type'')) offensive_comments))"

definition generate_report_json :: "pydict list \<Rightarrow> error + report" where
  "generate_report_json analyzed_comments =
     (let offensive_comments = offensive_comments_of analyzed_comments;
          num_offensive = length offensive_comments;
          total_comments = length analyzed_comments
      in case sorted_by_severity_desc offensive_comments of
           Inl e \<Rightarrow> Inl e
         | Inr sorted_offensive \<Rightarrow>
             Inr \<lparr> total_comments = total_comments,
                   num_offensive_comments = num_offensive,
                   offense_type_breakdown = offense_type_breakdown_of offensive_comments,
                   top_5_most_severe_offensive_comments_varied =
                     top_5_of_sorted sorted_offensive \<rparr>)"

section \<open>The selection of the report, as the specification words it\<close>

text \<open>
  The specification's algorithm, written from its sentences and not from the loops:
  the offensive comments in a stable sort by descending severity, a missing severity
  counting as 0; then a scan that takes the first comment of every offense type, five at
  most; then, when fewer than five were taken, the comments that the scan passed over,
  in sorted order, until five are reached or none is left. A comment is selected or
  not by its place in the list: two comments with the same content are two comments.
\<close>

fun spec_severity :: "pydict \<Rightarrow> int" where
  "spec_severity c =
     (case map_of c ''severity'' of
        Some (PInt i) \<Rightarrow> i
      | Some (PBool b) \<Rightarrow> (if b then 1 else 0)
      | _ \<Rightarrow> 0)"

definition spec_sorted :: "pydict list \<Rightarrow> pydict list" where
  "spec_sorted analyzed_comments =
     sort_key (\<lambda>c. - spec_severity c) (offensive_comments_of analyzed_comments)"

fun spec_first_of_each_type :: "pyval list \<Rightarrow> pydict list \<Rightarrow> pydict list" where
  "spec_first_of_each_type seen [] = []"
| "spec_first_of_each_type seen (c # cs) =
     (if py_in (dict_get c ''offense_type'') seen
      then spec_first_of_each_type seen cs
      else c # spec_first_of_each_type (seen @ [dict_get c ''offense_type'']) cs)"

fun spec_passed_over :: "pyval list \<Rightarrow> nat \<Rightarrow> pydict list \<Rightarrow> pydict list" where
  \<comment> \<open>the comments that a scan taking \<open>k\<close> comments at most does not take: those of a type
      seen before, and all that follow the last one taken\<close>
  "spec_passed_over seen k [] = []"
| "spec_passed_over seen k (c # cs) =
     (if k = 0 then c # cs
      else if py_in (dict_get c ''offense_type'') seen
      then c # spec_passed_over seen k cs
      else spec_passed_over (seen @ [dict_get c ''offense_type'']) (k - 1) cs)"

definition spec_top_5 :: "pydict list \<Rightarrow> pydict list" where
  "spec_top_5 analyzed_comments =
     (let pool = spec_sorted analyzed_comments;
          diverse = take 5 (spec_first_of_each_type [] pool)
      in diverse @ take (5 - length diverse) (spec_passed_over [] 5 pool))"

definition int_severity :: "pydict \<Rightarrow> bool" where
  \<comment> \<open>the severity is an integer, or the comment has no key \<open>severity\<close>\<close>
  "int_severity c =
     (case map_of c ''severity'' of None \<Rightarrow> True | Some (PInt i) \<Rightarrow> True | Some v \<Rightarrow> False)"

definition distinct_comments :: "pydict list \<Rightarrow> bool" where
  \<comment> \<open>no two comments of the list are equal as dictionaries\<close>
  "distinct_comments cs =
     (distinct cs \<and> (\<forall>x \<in> set cs. \<forall>y \<in> set cs. dict_eq x y \<longrightarrow> x = y))"

section \<open>Properties of the report\<close>

lemma severity_key_int:
  "int_severity c \<Longrightarrow> severity_key c = PInt (spec_severity c)"
  by (auto simp: int_severity_def severity_key_def dict_get_default_def
      split: option.splits pyval.splits)

lemma insert_desc_insort:
  "int_severity x \<Longrightarrow> list_all int_severity ys \<Longrightarrow>
     insert_desc x ys = Inr (insort_key (\<lambda>c. - spec_severity c) x ys)"
proof (induction ys)
  case Nil
  then show ?case by simp
next
  case (Cons y ys)
  then have "severity_key x = PInt (spec_severity x)" "severity_key y = PInt (spec_severity y)"
    by (simp_all add: severity_key_int)
  with Cons show ?case by auto
qed

lemma list_all_insort_key:
  "list_all P (insort_key f x ys) = (P x \<and> list_all P ys)"
  by (induction ys) auto

lemma list_all_sort_key: "list_all P (sort_key f xs) = list_all P xs"
  by (induction xs) (simp_all add: list_all_insort_key)

lemma sorted_by_severity_desc_sort_key:
  "list_all int_severity xs \<Longrightarrow>
     sorted_by_severity_desc xs = Inr (sort_key (\<lambda>c. - spec_severity c) xs)"
proof (induction xs)
  case Nil
  then show ?case by simp
next
  case (Cons x xs)
  then have "insert_desc x (sort_key (\<lambda>c. - spec_severity c) xs)
               = Inr (insort_key (\<lambda>c. - spec_severity c) x (sort_key (\<lambda>c. - spec_severity c) xs))"
    by (intro insert_desc_insort) (simp_all add: list_all_sort_key)
  with Cons show ?case by simp
qed

text \<open>The first loop against the first comment of every type.\<close>

lemma top_5_loop_full:
  "5 \<le> length sel \<Longrightarrow> top_5_loop xs sel seen = sel"
  by (cases xs) (simp_all add: Let_def)

lemma top_5_loop_spec:
  "seen = [] \<or> sel \<noteq> [] \<Longrightarrow>
     top_5_loop xs sel seen = sel @ take (5 - length sel) (spec_first_of_each_type seen xs)"
proof (induction xs arbitrary: sel seen)
  case Nil
  then show ?case by simp
next
  case (Cons c cs)
  show ?case
  proof (cases "length sel < 5")
    case False
    then show ?thesis by (simp add: top_5_loop_full)
  next
    case True
    show ?thesis
    proof (cases "py_in (dict_get c ''offense_type'') seen")
      case seen_it: True
      then have "seen \<noteq> []" by (auto simp: py_in_def)
      with Cons.prems have "sel \<noteq> []" by blast
      with True seen_it Cons.IH [of seen sel] Cons.prems show ?thesis
        by (simp add: Let_def)
    next
      case new: False
      have "top_5_loop cs (sel @ [c]) (seen @ [dict_get c ''offense_type''])
              = (sel @ [c]) @ take (5 - length (sel @ [c]))
                  (spec_first_of_each_type (seen @ [dict_get c ''offense_type'']) cs)"
        by (rule Cons.IH) simp
      moreover from True have "5 - length sel = Suc (5 - length (sel @ [c]))" by simp
      ultimately show ?thesis using True new by (simp add: Let_def)
    qed
  qed
qed

text \<open>The second loop against the repeated choice of the next comment not selected.\<close>

lemma py_eq_refl: "py_eq v v"
  by (cases v) simp_all

lemma dict_eq_refl: "dict_eq c c"
  unfolding dict_eq_def list_all_iff
proof
  fix k assume "k \<in> set (map fst c @ map fst c)"
  then have "k \<in> fst ` set c" by auto
  then obtain v where "map_of c k = Some v"
    by (metis domD dom_map_of_conv_image_fst)
  then show "case (map_of c k, map_of c k) of
               (Some u, Some v) \<Rightarrow> py_eq u v | _ \<Rightarrow> False"
    by (simp add: py_eq_refl)
qed

lemma dict_in_append: "dict_in c (xs @ ys) = (dict_in c xs \<or> dict_in c ys)"
  by (auto simp: dict_in_def list_ex_iff)

lemma dict_in_single: "dict_in c [c]"
  by (simp add: dict_in_def dict_eq_refl)

lemma fill_loop_full: "5 \<le> length sel \<Longrightarrow> fill_loop xs sel = sel"
  by (induction xs) simp_all

lemma dict_in_Nil: "\<not> dict_in c []"
  by (simp add: dict_in_def)

lemma dict_in_Cons: "dict_in c (x # xs) = (dict_eq c x \<or> dict_in c xs)"
  by (simp add: dict_in_def)

lemma distinct_comments_Cons:
  assumes "distinct_comments (c # cs)"
  shows "distinct_comments cs" and "\<forall>x \<in> set cs. \<not> dict_eq x c \<and> \<not> dict_eq c x"
proof -
  from assms show "distinct_comments cs" by (auto simp: distinct_comments_def)
  from assms have "c \<notin> set cs" by (simp add: distinct_comments_def)
  with assms show "\<forall>x \<in> set cs. \<not> dict_eq x c \<and> \<not> dict_eq c x"
    unfolding distinct_comments_def by (metis list.set_intros(1) list.set_intros(2))
qed

lemma distinct_comments_sort_key:
  "distinct_comments (sort_key f cs) = distinct_comments cs"
  by (simp add: distinct_comments_def)

lemma not_in_others:
  "\<forall>x \<in> set cs. \<not> dict_eq c x \<Longrightarrow> set sel \<subseteq> set cs \<Longrightarrow> \<not> dict_in c sel"
  by (auto simp: dict_in_def list_ex_iff)

lemma set_spec_first_of_each_type: "set (spec_first_of_each_type seen cs) \<subseteq> set cs"
  by (induction cs arbitrary: seen) auto

text \<open>
  The second loop adds, in their order, comments that are not equal to one selected
  before; among comments that are pairwise different these are the comments not in the
  list it starts from.
\<close>

lemma fill_loop_filter:
  "distinct_comments xs \<Longrightarrow>
     fill_loop xs sel = sel @ take (5 - length sel) (filter (\<lambda>c. \<not> dict_in c sel) xs)"
proof (induction xs arbitrary: sel)
  case Nil
  then show ?case by simp
next
  case (Cons c cs)
  note rest = distinct_comments_Cons [OF Cons.prems]
  show ?case
  proof (cases "length sel < 5")
    case False
    then show ?thesis by (simp add: fill_loop_full)
  next
    case True
    show ?thesis
    proof (cases "dict_in c sel")
      case selected: True
      with Cons.IH [OF rest(1), of sel] show ?thesis by simp
    next
      case fresh: False
      have same: "filter (\<lambda>x. \<not> dict_in x (sel @ [c])) cs = filter (\<lambda>x. \<not> dict_in x sel) cs"
        using rest(2) by (intro filter_cong) (auto simp: dict_in_append dict_in_def)
      from True have "5 - length sel = Suc (5 - length (sel @ [c]))" by simp
      with Cons.IH [OF rest(1), of "sel @ [c]"] fresh True same show ?thesis by simp
    qed
  qed
qed

lemma passed_over_filter:
  "distinct_comments xs \<Longrightarrow>
     filter (\<lambda>c. \<not> dict_in c (take k (spec_first_of_each_type seen xs))) xs
       = spec_passed_over seen k xs"
proof (induction xs arbitrary: seen k)
  case Nil
  then show ?case by simp
next
  case (Cons c cs)
  note rest = distinct_comments_Cons [OF Cons.prems]
  have others: "\<forall>x \<in> set cs. \<not> dict_eq c x" using rest(2) by simp
  show ?case
  proof (cases k)
    case 0
    then show ?thesis by (simp add: dict_in_Nil)
  next
    case (Suc j)
    show ?thesis
    proof (cases "py_in (dict_get c ''offense_type'') seen")
      case True
      have sub: "set (take k (spec_first_of_each_type seen cs)) \<subseteq> set cs"
        by (rule order_trans [OF set_take_subset set_spec_first_of_each_type])
      have keep: "\<not> dict_in c (take k (spec_first_of_each_type seen cs))"
        by (rule not_in_others [OF others sub])
      have ih: "filter (\<lambda>x. \<not> dict_in x (take k (spec_first_of_each_type seen cs))) cs
                  = spec_passed_over seen k cs"
        by (rule Cons.IH [OF rest(1)])
      have "filter (\<lambda>x. \<not> dict_in x (take k (spec_first_of_each_type seen (c # cs)))) (c # cs)
              = c # spec_passed_over seen k cs"
        using True keep ih by simp
      also have "\<dots> = spec_passed_over seen k (c # cs)"
        using True Suc by simp
      finally show ?thesis .
    next
      case False
      let ?seen = "seen @ [dict_get c ''offense_type'']"
      let ?taken = "take j (spec_first_of_each_type ?seen cs)"
      have ih: "filter (\<lambda>x. \<not> dict_in x ?taken) cs = spec_passed_over ?seen j cs"
        by (rule Cons.IH [OF rest(1)])
      have same: "filter (\<lambda>x. \<not> dict_in x (c # ?taken)) cs
                    = filter (\<lambda>x. \<not> dict_in x ?taken) cs"
      proof (rule filter_cong [OF refl])
        fix x assume "x \<in> set cs"
        with rest(2) have "\<not> dict_eq x c" by simp
        then show "(\<not> dict_in x (c # ?taken)) = (\<not> dict_in x ?taken)"
          by (simp add: dict_in_Cons)
      qed
      have first: "take k (spec_first_of_each_type seen (c # cs)) = c # ?taken"
        using False Suc by simp
      have "filter (\<lambda>x. \<not> dict_in x (take k (spec_first_of_each_type seen (c # cs)))) (c # cs)
              = filter (\<lambda>x. \<not> dict_in x (c # ?taken)) cs"
        unfolding first by (simp add: dict_in_Cons dict_eq_refl)
      also have "\<dots> = spec_passed_over ?seen j cs"
        by (simp only: same ih)
      also have "\<dots> = spec_passed_over seen k (c # cs)"
        using False Suc by simp
      finally show ?thesis .
    qed
  qed
qed

lemma top_5_of_sorted_spec:
  assumes "distinct_comments pool"
  shows "top_5_of_sorted pool =
     take 5 (spec_first_of_each_type [] pool)
       @ take (5 - length (take 5 (spec_first_of_each_type [] pool)))
           (spec_passed_over [] 5 pool)"
proof -
  define diverse where "diverse = take 5 (spec_first_of_each_type [] pool)"
  have loop: "top_5_loop pool [] [] = diverse"
    using top_5_loop_spec [of "[]" "[]" pool] by (simp add: diverse_def)
  have fill: "fill_loop pool diverse
                = diverse @ take (5 - length diverse) (spec_passed_over [] 5 pool)"
    using fill_loop_filter [OF assms, of diverse] passed_over_filter [OF assms, of 5 "[]"]
    by (simp add: diverse_def)
  have "top_5_of_sorted pool
          = diverse @ take (5 - length diverse) (spec_passed_over [] 5 pool)"
  proof (cases "length diverse < 5")
    case True
    then show ?thesis by (simp add: top_5_of_sorted_def loop fill)
  next
    case False
    then have "5 - length diverse = 0" by simp
    with False show ?thesis by (simp add: top_5_of_sorted_def loop)
  qed
  then show ?thesis by (simp only: diverse_def)
qed

text \<open>
  On analyzed comments whose offensive members all have an integer severity (or no key
  \<open>severity\<close>) and are pairwise different as dictionaries, \<open>generate_report_json\<close>
  returns a report, and its top-5 list is the one that the specification's algorithm
  selects.
\<close>

theorem generate_report_json_top_5_refines_spec:
  assumes "list_all int_severity (offensive_comments_of analyzed_comments)"
    and "distinct_comments (offensive_comments_of analyzed_comments)"
  shows "\<exists>r. generate_report_json analyzed_comments = Inr r
             \<and> top_5_most_severe_offensive_comments_varied r = spec_top_5 analyzed_comments
             \<and> total_comments r = length analyzed_comments
             \<and> num_offensive_comments r = length (offensive_comments_of analyzed_comments)"
proof -
  let ?pool = "sort_key (\<lambda>c. - spec_severity c) (offensive_comments_of analyzed_comments)"
  have "distinct_comments ?pool"
    using assms(2) by (simp only: distinct_comments_sort_key)
  from top_5_of_sorted_spec [OF this] sorted_by_severity_desc_sort_key [OF assms(1)]
  show ?thesis
    by (simp add: generate_report_json_def Let_def spec_top_5_def spec_sorted_def)
qed

text \<open>
  Where two offensive comments are equal as dictionaries the second loop of the code
  takes the second for selected already (\<open>comment not in top_5_varied\<close> compares by
  content): of two equal comments the report lists one, the specification's algorithm
  both.
\<close>

lemma equal_comments_stop_backfill:
  "generate_report_json
     [[(''comment_text'', PStr ''you fool''), (''is_offensive'', PBool True),
       (''offense_type'', PStr ''toxicity''), (''severity'', PInt 3)],
      [(''comment_text'', PStr ''you fool''), (''is_offensive'', PBool True),
       (''offense_type'', PStr ''toxicity''), (''severity'', PInt 3)]]
   = Inr \<lparr> total_comments = 2, num_offensive_comments = 2,
           offense_type_breakdown = [(PStr ''toxicity'', 2)],
           top_5_most_severe_offensive_comments_varied =
             [[(''comment_text'', PStr ''you fool''), (''is_offensive'', PBool True),
               (''offense_type'', PStr ''toxicity''), (''severity'', PInt 3)]] \<rparr>
   \<and> length (spec_top_5
        [[(''comment_text'', PStr ''you fool''), (''is_offensive'', PBool True),
          (''offense_type'', PStr ''toxicity''), (''severity'', PInt 3)],
         [(''comment_text'', PStr ''you fool''), (''is_offensive'', PBool True),
          (''offense_type'', PStr ''toxicity''), (''severity'', PInt 3)]]) = 2"
  by (simp add: generate_report_json_def offensive_comments_of_def dict_get_def
      severity_key_def dict_get_default_def top_5_of_sorted_def py_in_def dict_in_def
      dict_eq_refl offense_type_breakdown_of_def Counter_def Let_def spec_top_5_def
      spec_sorted_def)

text \<open>The breakdown of line 182.\<close>

definition py_num :: "pyval \<Rightarrow> pyval" where
  "py_num v = (case v of PBool b \<Rightarrow> PInt (if b then 1 else 0) | _ \<Rightarrow> v)"

lemma py_eq_py_num: "py_eq a b = (py_num a = py_num b)"
  by (cases a; cases b) (auto simp: py_num_def)

lemma py_eq_truthy: "py_eq a b \<Longrightarrow> truthy a = truthy b"
  by (cases a; cases b) (auto split: if_splits)

lemma counter_get_add:
  "counter_get (counter_add x m) t = counter_get m t + (if py_eq x t then 1 else 0)"
  by (induction m) (auto simp: py_eq_py_num)

lemma counter_get_foldl:
  "counter_get (foldl (\<lambda>m x. counter_add x m) m xs) t
     = counter_get m t + length (filter (\<lambda>x. py_eq x t) xs)"
  by (induction xs arbitrary: m) (simp_all add: counter_get_add)

lemma counter_get_Counter:
  "counter_get (Counter xs) t = length (filter (\<lambda>x. py_eq x t) xs)"
  by (simp add: Counter_def counter_get_foldl)

lemma counter_add_keys: "fst ` set (counter_add x m) \<subseteq> insert x (fst ` set m)"
  by (induction m) (auto split: if_splits, force+)

lemma counter_foldl_keys:
  "fst ` set (foldl (\<lambda>m x. counter_add x m) m xs) \<subseteq> fst ` set m \<union> set xs"
proof (induction xs arbitrary: m)
  case Nil
  then show ?case by simp
next
  case (Cons x xs)
  from Cons.IH [of "counter_add x m"] counter_add_keys [of x m]
  show ?case by auto
qed

lemma Counter_keys: "fst ` set (Counter xs) \<subseteq> set xs"
  using counter_foldl_keys [of "[]" xs] by (simp add: Counter_def)

lemma counter_add_sum: "sum_list (map snd (counter_add x m)) = sum_list (map snd m) + 1"
  by (induction m) auto

lemma Counter_sum_foldl:
  "sum_list (map snd (foldl (\<lambda>m x. counter_add x m) m xs))
     = sum_list (map snd m) + length xs"
  by (induction xs arbitrary: m) (simp_all add: counter_add_sum)

lemma Counter_sum: "sum_list (map snd (Counter xs)) = length xs"
  by (simp add: Counter_def Counter_sum_foldl)

lemma breakdown_filter:
  "filter (\<lambda>x. py_eq x t)
     (map (\<lambda>c. dict_get c ''offense_type'')
        (filter (\<lambda>c. truthy (dict_get c ''offense_type''))
           (offensive_comments_of analyzed_comments)))
   = map (\<lambda>c. dict_get c ''offense_type'')
       (filter (\<lambda>c. truthy (dict_get c ''is_offensive'')
                    \<and> truthy (dict_get c ''offense_type'')
                    \<and> py_eq (dict_get c ''offense_type'') t) analyzed_comments)"
  by (induction analyzed_comments) (auto simp: offensive_comments_of_def)

lemma generate_report_json_breakdown:
  "generate_report_json analyzed_comments = Inr r \<Longrightarrow>
     offense_type_breakdown r
       = offense_type_breakdown_of (offensive_comments_of analyzed_comments)"
  by (auto simp: generate_report_json_def Let_def split: sum.splits)

text \<open>
  C7. In a report that \<open>generate_report_json\<close> returns, the count that the breakdown
  holds for an offense type \<open>t\<close> is the number of comments whose \<open>is_offensive\<close> is true
  and whose \<open>offense_type\<close> is a true value (so not null) equal to \<open>t\<close>. Every key of the
  breakdown is such a value, null is no key and has count 0, and the counts add up to
  the number of comments with a true \<open>is_offensive\<close> and a true \<open>offense_type\<close>: a comment
  with a null offense type adds nothing.
\<close>

theorem offense_type_breakdown_counts:
  assumes "generate_report_json analyzed_comments = Inr r"
  shows "counter_get (offense_type_breakdown r) t
           = length (filter (\<lambda>c. truthy (dict_get c ''is_offensive'')
                                 \<and> truthy (dict_get c ''offense_type'')
                                 \<and> py_eq (dict_get c ''offense_type'') t) analyzed_comments)
         \<and> (\<forall>k \<in> fst ` set (offense_type_breakdown r). truthy k \<and> k \<noteq> PNone)
         \<and> counter_get (offense_type_breakdown r) PNone = 0
         \<and> sum_list (map snd (offense_type_breakdown r))
             = length (filter (\<lambda>c. truthy (dict_get c ''is_offensive'')
                                   \<and> truthy (dict_get c ''offense_type'')) analyzed_comments)"
proof -
  let ?types = "map (\<lambda>c. dict_get c ''offense_type'')
                  (filter (\<lambda>c. truthy (dict_get c ''offense_type''))
                     (offensive_comments_of analyzed_comments))"
  have b: "offense_type_breakdown r = Counter ?types"
    using generate_report_json_breakdown [OF assms]
    by (simp add: offense_type_breakdown_of_def)
  have count: "\<And>t. counter_get (offense_type_breakdown r) t
           = length (filter (\<lambda>c. truthy (dict_get c ''is_offensive'')
                                 \<and> truthy (dict_get c ''offense_type'')
                                 \<and> py_eq (dict_get c ''offense_type'') t) analyzed_comments)"
    by (simp add: b counter_get_Counter breakdown_filter)
  have keys: "\<forall>k \<in> fst ` set (offense_type_breakdown r). truthy k \<and> k \<noteq> PNone"
  proof
    fix k assume "k \<in> fst ` set (offense_type_breakdown r)"
    then have "k \<in> set ?types" using Counter_keys [of ?types] b by auto
    then have "truthy k" by auto
    then show "truthy k \<and> k \<noteq> PNone" by auto
  qed
  have none: "counter_get (offense_type_breakdown r) PNone = 0"
  proof -
    have "\<And>c. \<not> (truthy (dict_get c ''offense_type'')
                  \<and> py_eq (dict_get c ''offense_type'') PNone)"
      using py_eq_truthy by fastforce
    then show ?thesis by (simp add: count)
  qed
  have total: "sum_list (map snd (offense_type_breakdown r))
             = length (filter (\<lambda>c. truthy (dict_get c ''is_offensive'')
                                   \<and> truthy (dict_get c ''offense_type'')) analyzed_comments)"
    by (simp add: b Counter_sum offensive_comments_of_def conj_commute)
  from count keys none total show ?thesis by blast
qed

section \<open>The report on concrete inputs\<close>

definition analyzed :: "string \<Rightarrow> string \<Rightarrow> string \<Rightarrow> pyval \<Rightarrow> pyval \<Rightarrow> pyval \<Rightarrow> pyval
    \<Rightarrow> pydict" where
  \<comment> \<open>an analyzed comment with its seven fields, in the order of the export\<close>
  "analyzed cid user text off ty ex sev =
     [(''comment_id'', PStr cid), (''username'', PStr user), (''comment_text'', PStr text),
      (''is_offensive'', off), (''offense_type'', ty), (''explanation'', ex),
      (''severity'', sev)]"

lemma analyzed_fields:
  "dict_get (analyzed cid user text off ty ex sev) ''is_offensive'' = off"
  "dict_get (analyzed cid user text off ty ex sev) ''offense_type'' = ty"
  "map_of (analyzed cid user text off ty ex sev) ''severity'' = Some sev"
  "severity_key (analyzed cid user text off ty ex sev) = sev"
  by (simp_all add: analyzed_def dict_get_def severity_key_def dict_get_default_def)

definition example_analyzed :: "pydict list" where
  "example_analyzed =
     [analyzed ''1'' ''ann'' ''you fool'' (PBool True) (PStr ''toxicity'') (PStr ''insult'')
        (PInt 2),
      analyzed ''2'' ''bob'' ''nice day'' (PBool False) PNone PNone PNone,
      analyzed ''3'' ''cat'' ''hmm'' (PBool True) PNone PNone (PInt 1),
      analyzed ''4'' ''dan'' ''idiots'' (PBool True) (PStr ''toxicity'') (PStr ''insult'')
        (PInt 4)]"

lemma example_analyzed_report:
  "generate_report_json example_analyzed =
     Inr \<lparr> total_comments = 4, num_offensive_comments = 3,
           offense_type_breakdown = [(PStr ''toxicity'', 2)],
           top_5_most_severe_offensive_comments_varied =
             [analyzed ''4'' ''dan'' ''idiots'' (PBool True) (PStr ''toxicity'')
                (PStr ''insult'') (PInt 4),
              analyzed ''3'' ''cat'' ''hmm'' (PBool True) PNone PNone (PInt 1),
              analyzed ''1'' ''ann'' ''you fool'' (PBool True) (PStr ''toxicity'')
                (PStr ''insult'') (PInt 2)] \<rparr>"
proof -
  have ne: "\<not> dict_eq (analyzed ''1'' ''ann'' ''you fool'' (PBool True) (PStr ''toxicity'')
                (PStr ''insult'') (PInt 2))
              (analyzed ''4'' ''dan'' ''idiots'' (PBool True) (PStr ''toxicity'')
                (PStr ''insult'') (PInt 4))"
       "\<not> dict_eq (analyzed ''1'' ''ann'' ''you fool'' (PBool True) (PStr ''toxicity'')
                (PStr ''insult'') (PInt 2))
              (analyzed ''3'' ''cat'' ''hmm'' (PBool True) PNone PNone (PInt 1))"
    by (simp_all add: dict_eq_def analyzed_def)
  show ?thesis
    by (simp add: generate_report_json_def example_analyzed_def offensive_comments_of_def
        analyzed_fields top_5_of_sorted_def py_in_def dict_in_def dict_eq_refl ne
        offense_type_breakdown_of_def Counter_def Let_def)
qed


theorem offense_type_breakdown_counts_witness:
  "\<exists>r. generate_report_json example_analyzed = Inr r
       \<and> counter_get (offense_type_breakdown r) (PStr ''toxicity'') = 2
       \<and> counter_get (offense_type_breakdown r) PNone = 0
       \<and> sum_list (map snd (offense_type_breakdown r)) = 2"
proof -
  obtain r where r: "generate_report_json example_analyzed = Inr r"
    using example_analyzed_report by blast
  from offense_type_breakdown_counts [OF r, of "PStr ''toxicity''"]
  have "counter_get (offense_type_breakdown r) (PStr ''toxicity'') = 2
        \<and> counter_get (offense_type_breakdown r) PNone = 0
        \<and> sum_list (map snd (offense_type_breakdown r)) = 2"
    by (simp add: example_analyzed_def analyzed_fields)
  with r show ?thesis by blast
qed

definition example_null_severity :: "pydict list" where
  "example_null_severity =
     [analyzed ''1'' ''ann'' ''you fool'' (PBool True) (PStr ''toxicity'') (PStr ''insult'')
        PNone,
      analyzed ''2'' ''bob'' ''i will find you'' (PBool True) (PStr ''harassment'')
        (PStr ''threat'') (PInt 4)]"

text \<open>
  C1 fails on the code where an offensive comment has a null severity: the key of the
  sort is then \<open>None\<close>, which \<open><\<close> does not compare, and \<open>sorted\<close> raises \<open>TypeError\<close>
  out of \<open>generate_report_json\<close>. Such a comment is what the classifier returns for a
  response object that says \<open>is_offensive\<close> true and has no severity.
\<close>

theorem generate_report_json_null_severity_raises:
  "generate_report_json example_null_severity
     = Inl (TypeError ''< not supported between instances'')"
  by (simp add: generate_report_json_def example_null_severity_def offensive_comments_of_def
      analyzed_fields Let_def)

lemma null_severity_from_classifier:
  "snd (analyze_comment_with_ai (\<lambda>n t. Choice (Some s))
          (\<lambda>s. Inr (JObject [(''is_offensive'', PBool True),
                              (''offense_type'', PStr ''toxicity''),
                              (''explanation'', PStr ''insult'')]))
          n [(''comment_id'', PStr ''1''), (''username'', PStr ''ann''),
             (''comment_text'', PStr ''you fool'')])
   = analyzed ''1'' ''ann'' ''you fool'' (PBool True) (PStr ''toxicity'') (PStr ''insult'')
       PNone"
  by (simp add: analyze_comment_with_ai_def try_body_def json_loads_content_def
      apply_analysis_def set_analysis_def dict_set_def dict_get_def dict_get_default_def
      analyzed_def)

theorem generate_report_json_top_5_refines_spec_witness:
  "list_all int_severity (offensive_comments_of example_analyzed)
   \<and> distinct_comments (offensive_comments_of example_analyzed)
   \<and> (\<exists>r. generate_report_json example_analyzed = Inr r
          \<and> top_5_most_severe_offensive_comments_varied r = spec_top_5 example_analyzed
          \<and> spec_top_5 example_analyzed =
              [analyzed ''4'' ''dan'' ''idiots'' (PBool True) (PStr ''toxicity'')
                 (PStr ''insult'') (PInt 4),
               analyzed ''3'' ''cat'' ''hmm'' (PBool True) PNone PNone (PInt 1),
               analyzed ''1'' ''ann'' ''you fool'' (PBool True) (PStr ''toxicity'')
                 (PStr ''insult'') (PInt 2)])"
proof -
  have h: "list_all int_severity (offensive_comments_of example_analyzed)"
    by (simp add: example_analyzed_def offensive_comments_of_def analyzed_fields
        int_severity_def)
  have ids: "dict_eq (analyzed i u t off ty ex sev) (analyzed i' u' t' off' ty' ex' sev')
               \<Longrightarrow> i = i'" for i u t off ty ex sev i' u' t' off' ty' ex' sev'
    by (simp add: dict_eq_def analyzed_def)
  have d: "distinct_comments (offensive_comments_of example_analyzed)"
    unfolding distinct_comments_def
    by (auto simp: example_analyzed_def offensive_comments_of_def analyzed_fields
        dest: ids) (simp_all add: analyzed_def)
  from generate_report_json_top_5_refines_spec [OF h d] example_analyzed_report h d
  show ?thesis by auto
qed

text \<open>
  The example of the specification. The offensive comments of the input are, in any
  order, two of type \<open>A\<close> with severities 5 and 4, one of type \<open>B\<close> with severity 3 and
  one of type \<open>C\<close> with severity 1. The top-5 list is then the most severe comment of
  type \<open>A\<close>, the comments of types \<open>B\<close> and \<open>C\<close>, and last the second comment of type \<open>A\<close>:
  one of each type before the duplicate, which the backfill adds.
\<close>

lemma dict_eq_values:
  assumes "dict_eq x y" and "map_of x k = Some u" and "map_of y k = Some v"
  shows "py_eq u v"
proof -
  from assms(2) have "k \<in> set (map fst x @ map fst y)"
    by (auto dest: map_of_SomeD intro: rev_image_eqI)
  with assms(1) have "case (map_of x k, map_of y k) of
                        (Some u, Some v) \<Rightarrow> py_eq u v | _ \<Rightarrow> False"
    unfolding dict_eq_def list_all_iff by blast
  with assms(2,3) show ?thesis by simp
qed

lemma sort_key_four_distinct:
  fixes f :: "'a \<Rightarrow> int"
  assumes "mset xs = {#p, q, r, s#}" and "f p < f q" and "f q < f r" and "f r < f s"
  shows "sort_key f xs = [p, q, r, s]"
proof (rule properties_for_sort_key)
  show "mset [p, q, r, s] = mset xs" using assms(1) by simp
  show "sorted (map f [p, q, r, s])" using assms(2-4) by simp
  fix k assume k: "k \<in> set [p, q, r, s]"
  have "mset (filter (\<lambda>x. f k = f x) xs) = filter_mset (\<lambda>x. f k = f x) {#p, q, r, s#}"
    using assms(1) by (metis mset_filter)
  also have "\<dots> = mset (filter (\<lambda>x. f k = f x) [p, q, r, s])" by simp
  also have "\<dots> = {#k#}" using k assms(2-4) by auto
  finally have "mset (filter (\<lambda>x. f k = f x) xs) = {#k#}" .
  then have "filter (\<lambda>x. f k = f x) xs = [k]" by (metis mset_single_iff)
  moreover have "filter (\<lambda>x. f k = f x) [p, q, r, s] = [k]" using k assms(2-4) by auto
  ultimately show "filter (\<lambda>x. f k = f x) [p, q, r, s] = filter (\<lambda>x. f k = f x) xs"
    by simp
qed

theorem top_5_one_of_each_type_first:
  assumes types: "dict_get a1 ''offense_type'' = PStr A" "dict_get a2 ''offense_type'' = PStr A"
      "dict_get b ''offense_type'' = PStr B" "dict_get c ''offense_type'' = PStr C"
    and distinct: "A \<noteq> B" "A \<noteq> C" "B \<noteq> C"
    and sev: "map_of a1 ''severity'' = Some (PInt 5)" "map_of a2 ''severity'' = Some (PInt 4)"
      "map_of b ''severity'' = Some (PInt 3)" "map_of c ''severity'' = Some (PInt 1)"
    and input: "mset (offensive_comments_of analyzed_comments) = {#a1, a2, b, c#}"
  shows "\<exists>r. generate_report_json analyzed_comments = Inr r
             \<and> top_5_most_severe_offensive_comments_varied r = [a1, b, c, a2]"
proof -
  let ?xs = "offensive_comments_of analyzed_comments"
  have "set ?xs = {a1, a2, b, c}"
    using input by (metis set_mset_mset set_mset_add_mset_insert set_mset_empty)
  then have ints: "list_all int_severity ?xs"
    using sev by (auto simp: list_all_iff int_severity_def)
  have sorted: "sort_key (\<lambda>c. - spec_severity c) ?xs = [a1, a2, b, c]"
    by (rule sort_key_four_distinct [OF input]) (simp_all add: sev)
  have ne: "\<not> dict_eq a2 a1" "\<not> dict_eq a2 b" "\<not> dict_eq a2 c"
    using sev by (auto dest: dict_eq_values)
  have loop: "top_5_loop [a1, a2, b, c] [] [] = [a1, b, c]"
    using distinct by (simp add: types py_in_def Let_def)
  have fill: "fill_loop [a1, a2, b, c] [a1, b, c] = [a1, b, c, a2]"
    by (simp add: dict_in_def dict_eq_refl ne)
  have "top_5_of_sorted [a1, a2, b, c] = [a1, b, c, a2]"
    by (simp only: top_5_of_sorted_def loop fill Let_def) simp
  with sorted_by_severity_desc_sort_key [OF ints] sorted show ?thesis
    by (simp add: generate_report_json_def Let_def)
qed

theorem top_5_one_of_each_type_first_witness:
  "mset (offensive_comments_of
      [analyzed ''1'' ''ann'' ''t1'' (PBool True) (PStr ''C'') PNone (PInt 1),
       analyzed ''2'' ''bob'' ''t2'' (PBool True) (PStr ''A'') PNone (PInt 4),
       analyzed ''3'' ''cat'' ''t3'' (PBool False) PNone PNone PNone,
       analyzed ''4'' ''dan'' ''t4'' (PBool True) (PStr ''A'') PNone (PInt 5),
       analyzed ''5'' ''eve'' ''t5'' (PBool True) (PStr ''B'') PNone (PInt 3)])
   = {#analyzed ''4'' ''dan'' ''t4'' (PBool True) (PStr ''A'') PNone (PInt 5),
       analyzed ''2'' ''bob'' ''t2'' (PBool True) (PStr ''A'') PNone (PInt 4),
       analyzed ''5'' ''eve'' ''t5'' (PBool True) (PStr ''B'') PNone (PInt 3),
       analyzed ''1'' ''ann'' ''t1'' (PBool True) (PStr ''C'') PNone (PInt 1)#}
   \<and> (\<exists>r. generate_report_json
        [analyzed ''1'' ''ann'' ''t1'' (PBool True) (PStr ''C'') PNone (PInt 1),
         analyzed ''2'' ''bob'' ''t2'' (PBool True) (PStr ''A'') PNone (PInt 4),
         analyzed ''3'' ''cat'' ''t3'' (PBool False) PNone PNone PNone,
         analyzed ''4'' ''dan'' ''t4'' (PBool True) (PStr ''A'') PNone (PInt 5),
         analyzed ''5'' ''eve'' ''t5'' (PBool True) (PStr ''B'') PNone (PInt 3)] = Inr r
      \<and> top_5_most_severe_offensive_comments_varied r =
          [analyzed ''4'' ''dan'' ''t4'' (PBool True) (PStr ''A'') PNone (PInt 5),
           analyzed ''5'' ''eve'' ''t5'' (PBool True) (PStr ''B'') PNone (PInt 3),
           analyzed ''1'' ''ann'' ''t1'' (PBool True) (PStr ''C'') PNone (PInt 1),
           analyzed ''2'' ''bob'' ''t2'' (PBool True) (PStr ''A'') PNone (PInt 4)])"
proof -
  have input: "mset (offensive_comments_of
      [analyzed ''1'' ''ann'' ''t1'' (PBool True) (PStr ''C'') PNone (PInt 1),
       analyzed ''2'' ''bob'' ''t2'' (PBool True) (PStr ''A'') PNone (PInt 4),
       analyzed ''3'' ''cat'' ''t3'' (PBool False) PNone PNone PNone,
       analyzed ''4'' ''dan'' ''t4'' (PBool True) (PStr ''A'') PNone (PInt 5),
       analyzed ''5'' ''eve'' ''t5'' (PBool True) (PStr ''B'') PNone (PInt 3)])
   = {#analyzed ''4'' ''dan'' ''t4'' (PBool True) (PStr ''A'') PNone (PInt 5),
       analyzed ''2'' ''bob'' ''t2'' (PBool True) (PStr ''A'') PNone (PInt 4),
       analyzed ''5'' ''eve'' ''t5'' (PBool True) (PStr ''B'') PNone (PInt 3),
       analyzed ''1'' ''ann'' ''t1'' (PBool True) (PStr ''C'') PNone (PInt 1)#}"
    by (simp add: offensive_comments_of_def analyzed_fields)
  have distinct: "''A'' \<noteq> ''B''" "''A'' \<noteq> ''C''" "''B'' \<noteq> ''C''" by simp_all
  from top_5_one_of_each_type_first
         [OF analyzed_fields(2) analyzed_fields(2) analyzed_fields(2) analyzed_fields(2)
             distinct analyzed_fields(3) analyzed_fields(3) analyzed_fields(3)
             analyzed_fields(3) input]
       input
  show ?thesis by blast
qed

section \<open>Loading and exporting: \<open>load_comments\<close> and \<open>export_report\<close>\<close>

text \<open>
  A path of the file system holds no file, a file that cannot be opened or decoded (with
  the exception that this raises), or a text. Whether a path can be opened for writing
  is a second parameter. The text level of the libraries is a parameter as well:
  \<open>csv_reader\<close> is \<open>csv.reader\<close> on a whole text, giving the rows of cells or the
  exception, \<open>csv_text\<close> is the text that \<open>csv.writer\<close> produces for rows of cells,
  \<open>json_load\<close> is \<open>json.load\<close> and \<open>json_text\<close> is \<open>json.dump\<close> of the export's wrapper
  object. What \<open>csv.DictReader\<close> and \<open>csv.DictWriter\<close> do with rows of cells is
  modelled here.
\<close>

datatype file_state = Missing | Unreadable error | Text string

type_synonym fs = "string \<Rightarrow> file_state"

text \<open>
  The value of a JSON file as far as \<open>load_comments\<close> looks at it: a list (of flat
  comment objects), an object with or without the key \<open>comments\<close> (holding such a list),
  or another value. The source returns the list, or the value under \<open>comments\<close>, without
  a check of what it holds; a list with elements that are no flat objects, and a value
  under \<open>comments\<close> that is no such list, are not values of this type, and no statement
  below is about them.
\<close>

datatype json_data = DataList "pydict list" | DataDict "pydict list option" | DataOther

definition endswith :: "string \<Rightarrow> string \<Rightarrow> bool" where
  "endswith s suffix =
     (length suffix \<le> length s \<and> drop (length s - length suffix) s = suffix)"

definition open_read :: "fs \<Rightarrow> string \<Rightarrow> error + string" where
  "open_read files file_path =
     (case files file_path of
        Missing \<Rightarrow>
          Inl (FileNotFoundError (''[Errno 2] No such file or directory: '' @ file_path))
      | Unreadable e \<Rightarrow> Inl e
      | Text s \<Rightarrow> Inr s)"

text \<open>
  \<open>csv.DictReader\<close>: the first row holds the field names, empty rows are skipped, a short
  row gets \<open>None\<close> for the fields it lacks. Python keeps the surplus cells of a row longer
  than the header as a list under the key \<open>None\<close>; neither such a key nor such a value
  exists in this model, which leaves the surplus out: the statements below are about
  tables without such rows.
\<close>

definition row_dict :: "string list \<Rightarrow> string list \<Rightarrow> pydict" where
  "row_dict fieldnames row =
     foldl (\<lambda>d (k, v). dict_set d k v) []
       (zip fieldnames (map PStr row)
        @ map (\<lambda>k. (k, PNone)) (drop (length row) fieldnames))"

definition csv_DictReader :: "string list list \<Rightarrow> pydict list" where
  "csv_DictReader rows =
     (case rows of
        [] \<Rightarrow> []
      | fieldnames # data \<Rightarrow> map (row_dict fieldnames) (filter (\<lambda>row. row \<noteq> []) data))"

definition load_body ::
  "fs \<Rightarrow> (string \<Rightarrow> error + string list list) \<Rightarrow> (string \<Rightarrow> error + json_data) \<Rightarrow> string
     \<Rightarrow> error + pydict list" where
  \<comment> \<open>the body of the \<open>try\<close>, lines 28 to 43\<close>
  "load_body files csv_reader json_load file_path =
     (if endswith file_path ''.csv'' then
        (case open_read files file_path of
           Inl e \<Rightarrow> Inl e
         | Inr text \<Rightarrow>
             (case csv_reader text of
                Inl e \<Rightarrow> Inl e
              | Inr rows \<Rightarrow> Inr (csv_DictReader rows)))
      else if endswith file_path ''.json'' then
        (case open_read files file_path of
           Inl e \<Rightarrow> Inl e
         | Inr text \<Rightarrow>
             (case json_load text of
                Inl e \<Rightarrow> Inl e
              | Inr (DataList comments) \<Rightarrow> Inr comments
              | Inr (DataDict (Some comments)) \<Rightarrow> Inr comments
              | Inr _ \<Rightarrow>
                  Inl (ValueError (''JSON file should contain a list of comments or ''
                         @ ''a dictionary with a '' @ [CHR 0x27] @ ''comments''
                         @ [CHR 0x27] @ '' key.''))))
      else Inl (ValueError ''Unsupported file format. Please use CSV or JSON.''))"

definition load_comments ::
  "fs \<Rightarrow> (string \<Rightarrow> error + string list list) \<Rightarrow> (string \<Rightarrow> error + json_data) \<Rightarrow> string
     \<Rightarrow> string list \<times> pydict list" where
  \<comment> \<open>the result is the lines printed and the list returned\<close>
  "load_comments files csv_reader json_load file_path =
     (case load_body files csv_reader json_load file_path of
        Inr comments \<Rightarrow> ([], comments)
      | Inl e \<Rightarrow>
          if is_FileNotFoundError e
          then ([''Error: File not found at '' @ file_path], [])
          else ([''Error loading file: '' @ err_str e], []))"

text \<open>Decimal digits of an integer, for the cells that \<open>csv.writer\<close> makes with \<open>str\<close>.\<close>

function show_nat :: "nat \<Rightarrow> string" where
  "show_nat n =
     (if n < 10 then [char_of (48 + n)]
      else show_nat (n div 10) @ [char_of (48 + n mod 10)])"
  by pat_completeness auto
termination
  by (relation "measure id") auto

declare show_nat.simps [simp del]

definition show_int :: "int \<Rightarrow> string" where
  "show_int i = (if i < 0 then CHR ''-'' # show_nat (nat (- i)) else show_nat (nat i))"

fun csv_cell :: "pyval \<Rightarrow> string" where
  "csv_cell PNone = ''''"
| "csv_cell (PBool b) = (if b then ''True'' else ''False'')"
| "csv_cell (PInt i) = show_int i"
| "csv_cell (PStr s) = s"

definition export_fieldnames :: "string list" where
  "export_fieldnames =
     [''comment_id'', ''username'', ''comment_text'', ''is_offensive'', ''offense_type'',
      ''explanation'', ''severity'']"

definition fill_missing :: "string list \<Rightarrow> pydict \<Rightarrow> pydict" where
  \<comment> \<open>lines 197 to 199\<close>
  "fill_missing fieldnames comment =
     foldl (\<lambda>c field. if \<not> dict_has c field then dict_set c field PNone else c)
       comment fieldnames"

text \<open>
  \<open>DictWriter.writerows\<close> writes the rows one after the other; a dictionary with a key
  that is no field name raises \<open>ValueError\<close>, after the rows before it were written.
  The result is the rows written and the exception, if any.
\<close>

fun dict_rows :: "string list \<Rightarrow> pydict list \<Rightarrow> string list list \<times> error option" where
  "dict_rows fieldnames [] = ([], None)"
| "dict_rows fieldnames (rowdict # rest) =
     (if list_ex (\<lambda>k. k \<notin> set fieldnames) (map fst rowdict)
      then ([], Some (ValueError ''dict contains fields not in fieldnames''))
      else (case dict_rows fieldnames rest of
              (rows, err) \<Rightarrow>
                (map (\<lambda>key. csv_cell (dict_get_default rowdict key (PStr ''''))) fieldnames
                   # rows, err)))"

definition export_report ::
  "(string \<Rightarrow> error option) \<Rightarrow> (string list list \<Rightarrow> string) \<Rightarrow> (pydict list \<Rightarrow> string)
     \<Rightarrow> fs \<Rightarrow> pydict list \<Rightarrow> string \<Rightarrow> string list \<times> fs \<times> pydict list" where
  \<comment> \<open>the result is the lines printed, the file system and the comments as the function
      leaves them (it adds the missing fields to the dictionaries it was given)\<close>
  "export_report write_error csv_text json_text files analyzed_comments output_file =
     (if endswith output_file ''.csv'' then
        (case write_error output_file of
           Some e \<Rightarrow> ([''Error exporting data: '' @ err_str e], files, analyzed_comments)
         | None \<Rightarrow>
             (let filled = map (fill_missing export_fieldnames) analyzed_comments in
              case dict_rows export_fieldnames filled of
                (rows, None) \<Rightarrow>
                  ([''Analyzed data exported to '' @ output_file],
                   files(output_file := Text (csv_text (export_fieldnames # rows))), filled)
              | (rows, Some e) \<Rightarrow>
                  ([''Error exporting data: '' @ err_str e],
                   files(output_file := Text (csv_text (export_fieldnames # rows))), filled)))
      else if endswith output_file ''.json'' then
        (case write_error output_file of
           Some e \<Rightarrow> ([''Error exporting data: '' @ err_str e], files, analyzed_comments)
         | None \<Rightarrow>
             ([''Analyzed data exported to '' @ output_file],
              files(output_file := Text (json_text analyzed_comments)), analyzed_comments))
      else ([''Unsupported output file format. Please use CSV or JSON.''],
            files, analyzed_comments))"

section \<open>Properties of loading and exporting\<close>

definition unsupported_format :: "string \<Rightarrow> bool" where
  "unsupported_format file_path =
     (\<not> endswith file_path ''.csv'' \<and> \<not> endswith file_path ''.json'')"

definition parser_rejects ::
  "fs \<Rightarrow> (string \<Rightarrow> error + string list list) \<Rightarrow> (string \<Rightarrow> error + json_data) \<Rightarrow> string
     \<Rightarrow> bool" where
  \<comment> \<open>the file cannot be opened or decoded, its parser raises, or its JSON value is neither a
      list nor an object with the key \<open>comments\<close>\<close>
  "parser_rejects files csv_reader json_load file_path =
     (case files file_path of
        Missing \<Rightarrow> False
      | Unreadable e \<Rightarrow> True
      | Text text \<Rightarrow>
          if endswith file_path ''.csv'' then isl (csv_reader text)
          else (case json_load text of
                  Inl e \<Rightarrow> True
                | Inr (DataList comments) \<Rightarrow> False
                | Inr (DataDict (Some comments)) \<Rightarrow> False
                | Inr _ \<Rightarrow> True))"

lemma load_comments_of_error:
  "load_body files csv_reader json_load file_path = Inl e \<Longrightarrow>
     snd (load_comments files csv_reader json_load file_path) = []
     \<and> (\<exists>msg. fst (load_comments files csv_reader json_load file_path) = [''Error'' @ msg])"
  by (simp add: load_comments_def)

lemma load_body_missing:
  "files file_path = Missing \<Longrightarrow> \<exists>e. load_body files csv_reader json_load file_path = Inl e"
  by (simp add: load_body_def open_read_def)

lemma load_body_unsupported:
  "unsupported_format file_path \<Longrightarrow>
     \<exists>e. load_body files csv_reader json_load file_path = Inl e"
  by (simp add: load_body_def unsupported_format_def)

lemma parser_rejects_csv:
  assumes "parser_rejects files csv_reader json_load file_path" and "files file_path = Text body"
    and "endswith file_path ''.csv''"
  shows "\<exists>e. csv_reader body = Inl e"
  using assms by (cases "csv_reader body") (simp_all add: parser_rejects_def)

lemma load_body_csv_error:
  assumes "files file_path = Text body" and "csv_reader body = Inl e"
    and "endswith file_path ''.csv''"
  shows "\<exists>e. load_body files csv_reader json_load file_path = Inl e"
  using assms by (simp add: load_body_def open_read_def)

lemma load_body_no_extension:
  assumes "\<not> endswith file_path ''.json''" and "\<not> endswith file_path ''.csv''"
  shows "\<exists>e. load_body files csv_reader json_load file_path = Inl e"
  using assms by (simp add: load_body_def)

lemma load_body_json_error:
  assumes "files file_path = Text body" and "json_load body = Inl e"
    and "endswith file_path ''.json''" and "\<not> endswith file_path ''.csv''"
  shows "\<exists>e. load_body files csv_reader json_load file_path = Inl e"
  using assms by (simp add: load_body_def open_read_def)

lemma load_body_json_no_comments:
  assumes "files file_path = Text body" and "endswith file_path ''.json''"
    and "\<not> endswith file_path ''.csv''" and "json_load body = Inr (DataDict None)"
  shows "\<exists>e. load_body files csv_reader json_load file_path = Inl e"
  using assms by (simp add: load_body_def open_read_def)

lemma load_body_json_other:
  assumes "files file_path = Text body" and "endswith file_path ''.json''"
    and "\<not> endswith file_path ''.csv''" and "json_load body = Inr DataOther"
  shows "\<exists>e. load_body files csv_reader json_load file_path = Inl e"
  using assms by (simp add: load_body_def open_read_def)

lemma parser_rejects_json:
  assumes "parser_rejects files csv_reader json_load file_path" and "files file_path = Text body"
    and "\<not> endswith file_path ''.csv''"
  shows "(\<exists>e. json_load body = Inl e) \<or> json_load body = Inr (DataDict None)
         \<or> json_load body = Inr DataOther"
proof (cases "json_load body")
  case (Inl e)
  then show ?thesis by simp
next
  case (Inr data)
  show ?thesis
  proof (cases data)
    case (DataList comments)
    with assms Inr show ?thesis by (simp add: parser_rejects_def)
  next
    case (DataDict comments)
    with assms Inr show ?thesis by (cases comments) (simp_all add: parser_rejects_def)
  next
    case DataOther
    with Inr show ?thesis by simp
  qed
qed

lemma load_body_parser_rejects:
  assumes "parser_rejects files csv_reader json_load file_path"
  shows "\<exists>e. load_body files csv_reader json_load file_path = Inl e"
proof (cases "files file_path")
  case Missing
  with assms show ?thesis by (simp add: parser_rejects_def)
next
  case (Unreadable e)
  then show ?thesis by (simp add: load_body_def open_read_def)
next
  case (Text body)
  show ?thesis
  proof (cases "endswith file_path ''.csv''")
    case True
    from parser_rejects_csv [of files csv_reader json_load file_path body] assms Text True
    obtain e where e: "csv_reader body = Inl e" by blast
    from load_body_csv_error [of files file_path body csv_reader e json_load] Text e True
    show ?thesis by blast
  next
    case no_csv: False
    show ?thesis
    proof (cases "endswith file_path ''.json''")
      case False
      from load_body_no_extension [of file_path files csv_reader json_load] False no_csv
      show ?thesis by blast
    next
      case True
      from parser_rejects_json [of files csv_reader json_load file_path body] assms Text no_csv
      consider e where "json_load body = Inl e" | "json_load body = Inr (DataDict None)"
        | "json_load body = Inr DataOther"
        by blast
      then show ?thesis
      proof cases
        case 1
        with load_body_json_error [of files file_path body json_load e csv_reader]
          Text True no_csv
        show ?thesis by blast
      next
        case 2
        with load_body_json_no_comments [of files file_path body json_load csv_reader]
          Text True no_csv
        show ?thesis by blast
      next
        case 3
        with load_body_json_other [of files file_path body json_load csv_reader]
          Text True no_csv
        show ?thesis by blast
      qed
    qed
  qed
qed

lemma load_comments_failure_returns_empty:
  assumes "files file_path = Missing \<or> unsupported_format file_path
           \<or> parser_rejects files csv_reader json_load file_path"
  shows "snd (load_comments files csv_reader json_load file_path) = []
         \<and> (\<exists>msg. fst (load_comments files csv_reader json_load file_path)
                     = [''Error'' @ msg])"
proof -
  from assms
    load_body_missing [of files file_path csv_reader json_load]
    load_body_unsupported [of file_path files csv_reader json_load]
    load_body_parser_rejects [of files csv_reader json_load file_path]
  obtain e where e: "load_body files csv_reader json_load file_path = Inl e"
    by blast
  from load_comments_of_error [of files csv_reader json_load file_path e] e
  show ?thesis by blast
qed

lemma load_comments_csv_parsed:
  assumes "endswith file_path ''.csv''" and "files file_path = Text body"
    and "csv_reader body = Inr rows"
  shows "load_comments files csv_reader json_load file_path = ([], csv_DictReader rows)"
  using assms by (simp add: load_comments_def load_body_def open_read_def)

lemma load_comments_json_list:
  assumes "\<not> endswith file_path ''.csv''" and "endswith file_path ''.json''"
    and "files file_path = Text body" and "json_load body = Inr (DataList comments)"
  shows "load_comments files csv_reader json_load file_path = ([], comments)"
  using assms by (simp add: load_comments_def load_body_def open_read_def)

lemma load_comments_json_dict:
  assumes "\<not> endswith file_path ''.csv''" and "endswith file_path ''.json''"
    and "files file_path = Text body" and "json_load body = Inr (DataDict (Some comments))"
  shows "load_comments files csv_reader json_load file_path = ([], comments)"
  using assms by (simp add: load_comments_def load_body_def open_read_def)

lemma accepted_csv:
  assumes "\<not> parser_rejects files csv_reader json_load file_path"
    and "files file_path = Text body" and "endswith file_path ''.csv''"
  shows "\<exists>rows. csv_reader body = Inr rows"
  using assms by (cases "csv_reader body") (simp_all add: parser_rejects_def)

lemma accepted_json:
  assumes "\<not> parser_rejects files csv_reader json_load file_path"
    and "files file_path = Text body" and "\<not> endswith file_path ''.csv''"
  shows "\<exists>comments. json_load body = Inr (DataList comments)
           \<or> json_load body = Inr (DataDict (Some comments))"
proof (cases "json_load body")
  case (Inl e)
  with assms show ?thesis by (simp add: parser_rejects_def)
next
  case (Inr data)
  show ?thesis
  proof (cases data)
    case (DataList comments)
    with Inr show ?thesis by simp
  next
    case (DataDict comments)
    with assms Inr show ?thesis by (cases comments) (simp_all add: parser_rejects_def)
  next
    case DataOther
    with assms Inr show ?thesis by (simp add: parser_rejects_def)
  qed
qed

lemma load_comments_accepted:
  assumes "files file_path \<noteq> Missing" and "\<not> unsupported_format file_path"
    and "\<not> parser_rejects files csv_reader json_load file_path"
  shows "\<exists>body. files file_path = Text body
           \<and> ((endswith file_path ''.csv''
                \<and> (\<exists>rows. csv_reader body = Inr rows
                      \<and> load_comments files csv_reader json_load file_path
                          = ([], csv_DictReader rows)))
              \<or> (\<not> endswith file_path ''.csv'' \<and> endswith file_path ''.json''
                  \<and> (\<exists>comments. (json_load body = Inr (DataList comments)
                                    \<or> json_load body = Inr (DataDict (Some comments)))
                        \<and> load_comments files csv_reader json_load file_path
                            = ([], comments))))"
proof (cases "files file_path")
  case Missing
  with assms(1) show ?thesis by simp
next
  case (Unreadable e)
  with assms(3) show ?thesis by (simp add: parser_rejects_def)
next
  case (Text body)
  show ?thesis
  proof (cases "endswith file_path ''.csv''")
    case True
    from accepted_csv [of files csv_reader json_load file_path body] assms(3) Text True
    obtain rows where rows: "csv_reader body = Inr rows" by blast
    from load_comments_csv_parsed [of file_path files body csv_reader rows json_load]
      True Text rows
    have "load_comments files csv_reader json_load file_path = ([], csv_DictReader rows)"
      by blast
    with Text True rows show ?thesis by blast
  next
    case no_csv: False
    with assms(2) have json: "endswith file_path ''.json''"
      by (simp add: unsupported_format_def)
    from accepted_json [of files csv_reader json_load file_path body] assms(3) Text no_csv
    obtain comments where
      "json_load body = Inr (DataList comments)
       \<or> json_load body = Inr (DataDict (Some comments))"
      by blast
    then have "(json_load body = Inr (DataList comments)
                \<or> json_load body = Inr (DataDict (Some comments)))
               \<and> load_comments files csv_reader json_load file_path = ([], comments)"
      using load_comments_json_list [of file_path files body json_load comments csv_reader]
        load_comments_json_dict [of file_path files body json_load comments csv_reader]
        no_csv json Text
      by blast
    with Text no_csv json show ?thesis by blast
  qed
qed

text \<open>
  C4, as the code has it. For a path that holds no file, or whose extension is neither
  \<open>.csv\<close> nor \<open>.json\<close>, or whose file the reading rejects (it cannot be opened or
  decoded, its parser raises, or its JSON value is neither a list nor an object with the
  key \<open>comments\<close>), \<open>load_comments\<close> prints one line that starts with \<open>Error\<close> and
  returns the empty list; both handlers return, so that no exception reaches the
  caller. In every other case the file is a text that its parser accepts, nothing is
  printed, and the result is what the parser gave: the records of \<open>csv.DictReader\<close>, or
  the list of the JSON file. No further check of the content is made, so that a CSV file
  that is malformed as comment data is loaded.
\<close>

theorem load_comments_outcomes:
  "((files file_path = Missing \<or> unsupported_format file_path
       \<or> parser_rejects files csv_reader json_load file_path) \<longrightarrow>
      snd (load_comments files csv_reader json_load file_path) = []
      \<and> (\<exists>msg. fst (load_comments files csv_reader json_load file_path) = [''Error'' @ msg]))
   \<and> (\<not> (files file_path = Missing \<or> unsupported_format file_path
           \<or> parser_rejects files csv_reader json_load file_path) \<longrightarrow>
        (\<exists>body. files file_path = Text body
           \<and> ((endswith file_path ''.csv''
                \<and> (\<exists>rows. csv_reader body = Inr rows
                      \<and> load_comments files csv_reader json_load file_path
                          = ([], csv_DictReader rows)))
              \<or> (\<not> endswith file_path ''.csv'' \<and> endswith file_path ''.json''
                  \<and> (\<exists>comments. (json_load body = Inr (DataList comments)
                                    \<or> json_load body = Inr (DataDict (Some comments)))
                        \<and> load_comments files csv_reader json_load file_path
                            = ([], comments))))))"
  using load_comments_failure_returns_empty [of files file_path csv_reader json_load]
    load_comments_accepted [of files file_path csv_reader json_load]
  by blast

lemma load_comments_missing_message:
  "files file_path = Missing \<Longrightarrow> \<not> unsupported_format file_path \<Longrightarrow>
     load_comments files csv_reader json_load file_path
       = ([''Error: File not found at '' @ file_path], [])"
  by (auto simp: load_comments_def load_body_def open_read_def unsupported_format_def)

theorem load_comments_outcomes_witness:
  "(\<lambda>p. Missing) ''generated_comments.csv'' = Missing
   \<and> load_comments (\<lambda>p. Missing) (\<lambda>s. Inr []) (\<lambda>s. Inr DataOther) ''generated_comments.csv''
     = ([''Error: File not found at generated_comments.csv''], [])"
proof -
  have ext: "\<not> unsupported_format ''generated_comments.csv''"
    by (simp add: unsupported_format_def endswith_def)
  from load_comments_outcomes
         [of "\<lambda>p. Missing" "''generated_comments.csv''" "\<lambda>s. Inr []" "\<lambda>s. Inr DataOther"]
  have "snd (load_comments (\<lambda>p. Missing) (\<lambda>s. Inr []) (\<lambda>s. Inr DataOther)
               ''generated_comments.csv'') = []"
    by simp
  moreover
  have "fst (load_comments (\<lambda>p. Missing) (\<lambda>s. Inr []) (\<lambda>s. Inr DataOther)
               ''generated_comments.csv'')
          = [''Error: File not found at generated_comments.csv'']"
    using load_comments_missing_message
            [of "\<lambda>p. Missing" "''generated_comments.csv''" "\<lambda>s. Inr []" "\<lambda>s. Inr DataOther", OF _ ext]
    by simp
  ultimately show ?thesis by (simp add: prod_eq_iff)
qed

definition example_ragged_text :: string where
  "example_ragged_text =
     ''comment_id,username,comment_text'' @ [CHR 0x0A] @ ''1,ann'' @ [CHR 0x0A]"

text \<open>
  C4 as the claim states it fails on a malformed CSV file. The text below has the header
  of three fields and a second line \<open>1,ann\<close> with two cells only; \<open>csv.reader\<close> gives
  its two rows without an exception. \<open>load_comments\<close> prints nothing and returns a
  record whose \<open>comment_text\<close> is \<open>None\<close>, not the empty list.
\<close>

theorem ragged_csv_loaded_without_error:
  "load_comments (\<lambda>p. Text example_ragged_text)
     (\<lambda>s. Inr [[''comment_id'', ''username'', ''comment_text''], [''1'', ''ann'']])
     (\<lambda>s. Inr DataOther) ''comments.csv''
   = ([], [[(''comment_id'', PStr ''1''), (''username'', PStr ''ann''),
            (''comment_text'', PNone)]])"
  by (simp add: load_comments_def load_body_def open_read_def endswith_def
      csv_DictReader_def row_dict_def dict_set_def)


text \<open>The round trip of a CSV file with the header of the generator.\<close>

definition csv_header :: "string list" where
  "csv_header = [''comment_id'', ''username'', ''comment_text'']"

definition pad_row :: "string list \<Rightarrow> string list" where
  \<comment> \<open>a row of the input with the four empty cells of the fields not analysed\<close>
  "pad_row row = row @ ['''', '''', '''', '''']"

definition exported_table :: "string list list \<Rightarrow> string list list" where
  "exported_table data = export_fieldnames # map pad_row (filter (\<lambda>row. row \<noteq> []) data)"

lemma length_3: "length row = 3 \<Longrightarrow> \<exists>a b c. row = [a, b, c]"
  by (auto simp: length_Suc_conv numeral_3_eq_3)

lemma row_dict_csv_header:
  "row_dict csv_header [a, b, c] =
     [(''comment_id'', PStr a), (''username'', PStr b), (''comment_text'', PStr c)]"
  by (simp add: row_dict_def csv_header_def dict_set_def)

lemma fill_missing_loaded:
  "fill_missing export_fieldnames
     [(''comment_id'', PStr a), (''username'', PStr b), (''comment_text'', PStr c)] =
     [(''comment_id'', PStr a), (''username'', PStr b), (''comment_text'', PStr c),
      (''is_offensive'', PNone), (''offense_type'', PNone), (''explanation'', PNone),
      (''severity'', PNone)]"
  by (simp add: fill_missing_def export_fieldnames_def dict_has_def dict_set_def)

lemma filled_row_cells:
  "map (\<lambda>key. csv_cell (dict_get_default
          [(''comment_id'', PStr a), (''username'', PStr b), (''comment_text'', PStr c),
           (''is_offensive'', PNone), (''offense_type'', PNone), (''explanation'', PNone),
           (''severity'', PNone)] key (PStr ''''))) export_fieldnames
   = pad_row [a, b, c]"
  by (simp add: export_fieldnames_def dict_get_default_def pad_row_def)

lemma filled_row_keys:
  "\<not> list_ex (\<lambda>k. k \<notin> set export_fieldnames)
       (map fst [(''comment_id'', PStr a), (''username'', PStr b), (''comment_text'', PStr c),
                 (''is_offensive'', PNone), (''offense_type'', PNone),
                 (''explanation'', PNone), (''severity'', PNone)])"
  by (simp add: export_fieldnames_def)

lemma dict_rows_loaded:
  "\<forall>row \<in> set rows. length row = 3 \<Longrightarrow>
     dict_rows export_fieldnames
       (map (fill_missing export_fieldnames) (map (row_dict csv_header) rows))
     = (map pad_row rows, None)"
proof (induction rows)
  case Nil
  then show ?case by simp
next
  case (Cons row rows)
  then obtain a b c where row: "row = [a, b, c]" using length_3 [of row] by auto
  from Cons have "dict_rows export_fieldnames
       (map (fill_missing export_fieldnames) (map (row_dict csv_header) rows))
     = (map pad_row rows, None)"
    by simp
  with filled_row_keys [of a b c] show ?case
    by (simp add: row row_dict_csv_header fill_missing_loaded filled_row_cells)
qed

lemma row_dict_exported:
  "row_dict export_fieldnames (pad_row [a, b, c]) =
     [(''comment_id'', PStr a), (''username'', PStr b), (''comment_text'', PStr c),
      (''is_offensive'', PStr ''''), (''offense_type'', PStr ''''), (''explanation'', PStr ''''),
      (''severity'', PStr '''')]"
  by (simp add: row_dict_def export_fieldnames_def pad_row_def dict_set_def)

lemma reread_row_fields:
  assumes "length row = 3" and "k \<in> set csv_header"
  shows "map_of (row_dict export_fieldnames (pad_row row)) k = map_of (row_dict csv_header row) k"
proof -
  from assms(1) obtain a b c where row: "row = [a, b, c]" using length_3 [of row] by auto
  from assms(2) have "k = ''comment_id'' \<or> k = ''username'' \<or> k = ''comment_text''"
    by (simp add: csv_header_def)
  then show ?thesis
    unfolding row row_dict_exported row_dict_csv_header by auto
qed

lemma csv_DictReader_header:
  "csv_DictReader (fieldnames # data)
     = map (row_dict fieldnames) (filter (\<lambda>row. row \<noteq> []) data)"
  by (simp add: csv_DictReader_def)

lemma csv_DictReader_exported:
  "csv_DictReader (exported_table data)
     = map (\<lambda>row. row_dict export_fieldnames (pad_row row)) (filter (\<lambda>row. row \<noteq> []) data)"
proof -
  have "filter (\<lambda>row. row \<noteq> []) (map pad_row (filter (\<lambda>row. row \<noteq> []) data))
          = map pad_row (filter (\<lambda>row. row \<noteq> []) data)"
    by (induction data) (simp_all add: pad_row_def)
  then show ?thesis by (simp add: exported_table_def csv_DictReader_header comp_def)
qed

lemma load_comments_csv:
  assumes "endswith file_path ''.csv''" and "files file_path = Text body"
    and "csv_reader body = Inr rows"
  shows "load_comments files csv_reader json_load file_path = ([], csv_DictReader rows)"
  using assms by (simp add: load_comments_def load_body_def open_read_def)

lemma export_report_csv_loaded:
  assumes "endswith output_file ''.csv''" and "write_error output_file = None"
    and "\<forall>row \<in> set rows. length row = 3"
  shows "export_report write_error csv_text json_text files
           (map (row_dict csv_header) rows) output_file
         = ([''Analyzed data exported to '' @ output_file],
            files(output_file := Text (csv_text (export_fieldnames # map pad_row rows))),
            map (fill_missing export_fieldnames) (map (row_dict csv_header) rows))"
  using assms(1,2) dict_rows_loaded [OF assms(3)]
  by (simp add: export_report_def Let_def)

definition load_then_export ::
  "(string \<Rightarrow> error option) \<Rightarrow> (string list list \<Rightarrow> string) \<Rightarrow> (pydict list \<Rightarrow> string)
     \<Rightarrow> (string \<Rightarrow> error + string list list) \<Rightarrow> (string \<Rightarrow> error + json_data)
     \<Rightarrow> fs \<Rightarrow> string \<Rightarrow> string \<Rightarrow> fs" where
  \<comment> \<open>the file system after \<open>load_comments\<close> of one path and \<open>export_report\<close> of the
      comments loaded to another\<close>
  "load_then_export write_error csv_text json_text csv_reader json_load files in_path out_path =
     fst (snd (export_report write_error csv_text json_text files
                 (snd (load_comments files csv_reader json_load in_path)) out_path))"

text \<open>
  C8. The input is a CSV file whose header is \<open>comment_id,username,comment_text\<close> and
  whose rows have three cells each (empty rows apart, which the reader skips). Loading
  it gives one record for each row, with the three cells as its fields. Exporting these
  records to a CSV path writes the table of the same rows under the header of seven
  fields, each row with four empty cells added. Where the CSV library reads the text it
  wrote for that table back as that table, loading the exported file gives as many
  records as before, and each has the same \<open>comment_id\<close>, \<open>username\<close> and \<open>comment_text\<close>
  as the record loaded from the input.
\<close>

theorem csv_load_export_round_trip:
  assumes "endswith in_path ''.csv''"
    and "files in_path = Text body"
    and "csv_reader body = Inr (csv_header # data)"
    and "\<forall>row \<in> set data. row = [] \<or> length row = 3"
    and "endswith out_path ''.csv''"
    and "write_error out_path = None"
    and "csv_reader (csv_text (exported_table data)) = Inr (exported_table data)"
  shows "snd (load_comments files csv_reader json_load in_path)
           = map (row_dict csv_header) (filter (\<lambda>row. row \<noteq> []) data)
         \<and> load_then_export write_error csv_text json_text csv_reader json_load files
               in_path out_path out_path
             = Text (csv_text (exported_table data))
         \<and> length (snd (load_comments
                 (load_then_export write_error csv_text json_text csv_reader json_load files
                    in_path out_path) csv_reader json_load out_path))
             = length (snd (load_comments files csv_reader json_load in_path))
         \<and> (\<forall>i < length (snd (load_comments files csv_reader json_load in_path)).
               \<forall>k \<in> set csv_header.
                 map_of (snd (load_comments
                    (load_then_export write_error csv_text json_text csv_reader json_load
                       files in_path out_path) csv_reader json_load out_path) ! i) k
                 = map_of (snd (load_comments files csv_reader json_load in_path) ! i) k)"
proof -
  define rows where "rows = filter (\<lambda>row. row \<noteq> []) data"
  define files' where "files' = load_then_export write_error csv_text json_text csv_reader
                                 json_load files in_path out_path"
  have three: "\<forall>row \<in> set rows. length row = 3"
    using assms(4) by (auto simp: rows_def)
  have loaded: "snd (load_comments files csv_reader json_load in_path)
                  = map (row_dict csv_header) rows"
    using load_comments_csv [of in_path files body csv_reader "csv_header # data" json_load]
      assms(1-3)
    by (simp add: csv_DictReader_header rows_def)
  have exported: "files' = files(out_path := Text (csv_text (exported_table data)))"
    using export_report_csv_loaded
            [of out_path write_error rows csv_text json_text files] assms(5,6) three
    by (simp add: files'_def load_then_export_def loaded exported_table_def rows_def)
  then have written: "files' out_path = Text (csv_text (exported_table data))"
    by simp
  have reloaded: "snd (load_comments files' csv_reader json_load out_path)
                    = map (\<lambda>row. row_dict export_fieldnames (pad_row row)) rows"
    using load_comments_csv
            [of out_path files' "csv_text (exported_table data)" csv_reader
               "exported_table data" json_load]
      assms(5,7) written
    by (simp add: csv_DictReader_exported rows_def)
  have fields: "\<forall>i < length rows. \<forall>k \<in> set csv_header.
      map_of (map (\<lambda>row. row_dict export_fieldnames (pad_row row)) rows ! i) k
        = map_of (map (row_dict csv_header) rows ! i) k"
    using three by (simp add: reread_row_fields)
  show ?thesis
    unfolding files'_def [symmetric]
    using loaded written reloaded fields by (simp add: rows_def)
qed

definition example_data :: "string list list" where
  "example_data = [[''1'', ''ann'', ''hello there''], [], [''2'', ''bob'', ''damn it'']]"

definition example_files :: fs where
  "example_files = (\<lambda>p. if p = ''generated_comments.csv'' then Text ''input'' else Missing)"

definition example_csv_reader :: "string \<Rightarrow> error + string list list" where
  "example_csv_reader =
     (\<lambda>s. if s = ''input'' then Inr (csv_header # example_data)
          else Inr (exported_table example_data))"

theorem csv_load_export_round_trip_witness:
  "endswith ''generated_comments.csv'' ''.csv''
   \<and> endswith ''analyzed_comments.csv'' ''.csv''
   \<and> example_csv_reader ''input'' = Inr (csv_header # example_data)
   \<and> load_then_export (\<lambda>p. None) (\<lambda>t. ''output'') (\<lambda>c. '''') example_csv_reader
         (\<lambda>s. Inr DataOther) example_files ''generated_comments.csv''
         ''analyzed_comments.csv'' ''analyzed_comments.csv''
       = Text ''output''
   \<and> map_of (snd (load_comments
         (load_then_export (\<lambda>p. None) (\<lambda>t. ''output'') (\<lambda>c. '''') example_csv_reader
            (\<lambda>s. Inr DataOther) example_files ''generated_comments.csv''
            ''analyzed_comments.csv'')
         example_csv_reader (\<lambda>s. Inr DataOther) ''analyzed_comments.csv'') ! 1) ''username''
       = Some (PStr ''bob'')"
proof -
  have h1: "endswith ''generated_comments.csv'' ''.csv''" by (simp add: endswith_def)
  have h2: "example_files ''generated_comments.csv'' = Text ''input''"
    by (simp add: example_files_def)
  have h3: "example_csv_reader ''input'' = Inr (csv_header # example_data)"
    by (simp add: example_csv_reader_def)
  have h4: "\<forall>row \<in> set example_data. row = [] \<or> length row = 3"
    by (simp add: example_data_def)
  have h5: "endswith ''analyzed_comments.csv'' ''.csv''" by (simp add: endswith_def)
  have h6: "(\<lambda>p::string. None :: error option) ''analyzed_comments.csv'' = None" by simp
  have h7: "example_csv_reader ((\<lambda>t. ''output'') (exported_table example_data))
              = Inr (exported_table example_data)"
    by (simp add: example_csv_reader_def)
  note rt = csv_load_export_round_trip
              [where in_path = "''generated_comments.csv''" and files = example_files
                 and body = "''input''" and csv_reader = example_csv_reader
                 and data = example_data and out_path = "''analyzed_comments.csv''"
                 and write_error = "\<lambda>p. None" and csv_text = "\<lambda>t. ''output''"
                 and json_load = "\<lambda>s. Inr DataOther" and json_text = "\<lambda>c. ''''",
               OF h1 h2 h3 h4 h5 h6 h7]
  have loaded: "map_of (snd (load_comments example_files example_csv_reader
                               (\<lambda>s. Inr DataOther) ''generated_comments.csv'') ! 1)
                  ''username'' = Some (PStr ''bob'')"
    using rt by (simp add: example_data_def row_dict_csv_header)
  have k: "''username'' \<in> set csv_header" by (simp add: csv_header_def)
  have i: "1 < length (snd (load_comments example_files example_csv_reader
                              (\<lambda>s. Inr DataOther) ''generated_comments.csv''))"
    using rt by (simp add: example_data_def)
  from rt i k have "map_of (snd (load_comments
         (load_then_export (\<lambda>p. None) (\<lambda>t. ''output'') (\<lambda>c. '''') example_csv_reader
            (\<lambda>s. Inr DataOther) example_files ''generated_comments.csv''
            ''analyzed_comments.csv'')
         example_csv_reader (\<lambda>s. Inr DataOther) ''analyzed_comments.csv'') ! 1) ''username''
       = map_of (snd (load_comments example_files example_csv_reader
                               (\<lambda>s. Inr DataOther) ''generated_comments.csv'') ! 1)
                  ''username''"
    by blast
  with loaded rt h1 h3 h5 show ?thesis by simp
qed

section \<open>The generator: \<open>data_generation.py\<close>\<close>

text \<open>
  The script runs from top to bottom once the API key is set. The client of the
  generator answers the request number \<open>n\<close> (the prompt is the same for every batch) in
  the three ways of the classifier's client. \<open>strip_splitlines\<close> stands for
  \<open>content.strip().splitlines()\<close> and \<open>fake_user_name\<close> for \<open>fake.user_name()\<close> at the
  index of the comment; both are parameters.
\<close>

definition OUTPUT_FILENAME :: string where
  "OUTPUT_FILENAME = ''generated_comments.csv''"

definition NUM_COMMENTS_TO_GENERATE :: nat where
  "NUM_COMMENTS_TO_GENERATE = 200"

definition COMMENTS_PER_BATCH :: nat where
  "COMMENTS_PER_BATCH = 10"

fun is_infix :: "string \<Rightarrow> string \<Rightarrow> bool" where
  \<comment> \<open>\<open>k in s\<close> for two strings\<close>
  "is_infix k [] = (k = [])"
| "is_infix k (c # cs) = (take (length k) (c # cs) = k \<or> is_infix k cs)"

fun json_contains :: "json_top \<Rightarrow> string \<Rightarrow> error + bool" where
  \<comment> \<open>\<open>key in comment_json\<close>: a key of an object, an element of an array, a part of a
      string; another value is not iterable\<close>
  "json_contains (JObject d) key = Inr (dict_has d key)"
| "json_contains (JArray xs) key = Inr (py_in (PStr key) xs)"
| "json_contains (JScalar (PStr s)) key = Inr (is_infix key s)"
| "json_contains (JScalar v) key = Inl (TypeError ''argument is not iterable'')"

definition parse_line :: "json_loads \<Rightarrow> string \<Rightarrow> error + json_top option" where
  \<comment> \<open>one pass of the loop of lines 46 to 54: a comment to append, a warning, or an
      exception that the inner handler does not catch\<close>
  "parse_line loads line =
     (case loads line of
        Inl e \<Rightarrow> if is_JSONDecodeError e then Inr None else Inl e
      | Inr comment_json \<Rightarrow>
          (case json_contains comment_json ''username'' of
             Inl e \<Rightarrow> Inl e
           | Inr False \<Rightarrow> Inr None
           | Inr True \<Rightarrow>
               (case json_contains comment_json ''comment_text'' of
                  Inl e \<Rightarrow> Inl e
                | Inr False \<Rightarrow> Inr None
                | Inr True \<Rightarrow> Inr (Some comment_json))))"

fun parse_lines :: "json_loads \<Rightarrow> string list \<Rightarrow> json_top list \<Rightarrow> error + json_top list" where
  "parse_lines loads [] comments = Inr comments"
| "parse_lines loads (line # rest) comments =
     (case parse_line loads line of
        Inl e \<Rightarrow> Inl e
      | Inr None \<Rightarrow> parse_lines loads rest comments
      | Inr (Some comment_json) \<Rightarrow> parse_lines loads rest (comments @ [comment_json]))"

definition generate_comments_batch ::
  "(nat \<Rightarrow> api_response) \<Rightarrow> json_loads \<Rightarrow> (string \<Rightarrow> string list) \<Rightarrow> nat \<Rightarrow> json_top list" where
  "generate_comments_batch client loads strip_splitlines n =
     (case (case client n of
              ApiRaises e \<Rightarrow> Inl e
            | NoChoices \<Rightarrow> Inr []
            | Choice None \<Rightarrow>
                Inl (AttributeError ''NoneType object has no attribute strip'')
            | Choice (Some content) \<Rightarrow> parse_lines loads (strip_splitlines content) [])
      of Inl e \<Rightarrow> []
       | Inr comments \<Rightarrow> comments)"

fun generate_all ::
  "(nat \<Rightarrow> api_response) \<Rightarrow> json_loads \<Rightarrow> (string \<Rightarrow> string list) \<Rightarrow> nat list \<Rightarrow> nat
     \<Rightarrow> json_top list \<Rightarrow> json_top list" where
  \<comment> \<open>the loop of lines 64 to 68 over the batch starts \<open>i\<close>, with the request counter\<close>
  "generate_all client loads strip_splitlines [] n all_generated_comments =
     all_generated_comments"
| "generate_all client loads strip_splitlines (i # rest) n all_generated_comments =
     generate_all client loads strip_splitlines rest (Suc n)
       (all_generated_comments @ generate_comments_batch client loads strip_splitlines n)"

definition batch_starts :: "nat list" where
  \<comment> \<open>\<open>range(0, NUM_COMMENTS_TO_GENERATE, COMMENTS_PER_BATCH)\<close>\<close>
  "batch_starts =
     filter (\<lambda>i. i mod COMMENTS_PER_BATCH = 0) [0 ..< NUM_COMMENTS_TO_GENERATE]"

text \<open>
  The assembly loop, lines 74 to 79. A generated item that is no object (a JSON string
  or array can pass the test of the batch) raises \<open>TypeError\<close> here, at the membership
  test, the item assignment or the subscript; the text of the error is shortened.
\<close>

definition assemble_one :: "(nat \<Rightarrow> string) \<Rightarrow> nat \<Rightarrow> json_top \<Rightarrow> error + pydict" where
  "assemble_one fake_user_name index comment =
     (case comment of
        JObject d \<Rightarrow>
          (let d1 = (if \<not> dict_has d ''username''
                     then dict_set d ''username'' (PStr (fake_user_name index)) else d);
               d2 = (if \<not> dict_has d1 ''comment_text''
                     then dict_set d1 ''comment_text'' (PStr ''This comment had an issue.'')
                     else d1)
           in Inr [(''comment_id'', PInt (int index + 1)),
                   (''username'', dict_get d2 ''username''),
                   (''comment_text'', dict_get d2 ''comment_text'')])
      | _ \<Rightarrow> Inl (TypeError ''comment is not a dictionary''))"

fun assemble_loop ::
  "(nat \<Rightarrow> string) \<Rightarrow> nat \<Rightarrow> json_top list \<Rightarrow> pydict list \<Rightarrow> error + pydict list" where
  "assemble_loop fake_user_name index [] final_comments = Inr final_comments"
| "assemble_loop fake_user_name index (comment # rest) final_comments =
     (case assemble_one fake_user_name index comment of
        Inl e \<Rightarrow> Inl e
      | Inr record \<Rightarrow>
          assemble_loop fake_user_name (Suc index) rest (final_comments @ [record]))"

definition data_generation ::
  "(nat \<Rightarrow> api_response) \<Rightarrow> json_loads \<Rightarrow> (string \<Rightarrow> string list) \<Rightarrow> (nat \<Rightarrow> string)
     \<Rightarrow> (string \<Rightarrow> error option) \<Rightarrow> (string list list \<Rightarrow> string) \<Rightarrow> fs
     \<Rightarrow> error + pydict list \<times> fs" where
  \<comment> \<open>the script from line 63 on: \<open>Inl\<close> is an exception that ends it, \<open>Inr\<close> the records
      written and the file system with the file\<close>
  "data_generation client loads strip_splitlines fake_user_name write_error csv_text files =
     (let all_generated_comments =
            generate_all client loads strip_splitlines batch_starts 0 []
      in case assemble_loop fake_user_name 0 all_generated_comments [] of
           Inl e \<Rightarrow> Inl e
         | Inr final_comments \<Rightarrow>
             (case write_error OUTPUT_FILENAME of
                Some e \<Rightarrow> Inl e
              | None \<Rightarrow>
                  (case dict_rows csv_header final_comments of
                     (rows, Some e) \<Rightarrow> Inl e
                   | (rows, None) \<Rightarrow>
                       Inr (final_comments,
                            files(OUTPUT_FILENAME := Text (csv_text (csv_header # rows)))))))"

section \<open>Properties of the generator\<close>

definition generated_record :: "nat \<Rightarrow> pydict \<Rightarrow> bool" where
  \<comment> \<open>an entry with the three fields, in this order, whose \<open>comment_id\<close> is the integer given\<close>
  "generated_record cid entry =
     (map fst entry = csv_header \<and> map_of entry ''comment_id'' = Some (PInt (int cid)))"

lemma assemble_one_record:
  "assemble_one fake_user_name index comment = Inr entry \<Longrightarrow>
     generated_record (Suc index) entry"
  by (cases comment)
     (auto simp: assemble_one_def Let_def generated_record_def csv_header_def)

lemma assemble_loop_records:
  "assemble_loop fake_user_name index comments acc = Inr final_comments \<Longrightarrow>
     \<exists>entries. final_comments = acc @ entries \<and> length entries = length comments
       \<and> (\<forall>j < length entries. generated_record (index + j + 1) (entries ! j))"
proof (induction comments arbitrary: index acc)
  case Nil
  then show ?case by simp
next
  case (Cons comment rest)
  from Cons.prems obtain entry where
    one: "assemble_one fake_user_name index comment = Inr entry" and
    loop: "assemble_loop fake_user_name (Suc index) rest (acc @ [entry]) = Inr final_comments"
    by (auto split: sum.splits)
  from Cons.IH [OF loop] obtain entries where
    entries: "final_comments = (acc @ [entry]) @ entries" "length entries = length rest"
      "\<forall>j < length entries. generated_record (Suc index + j + 1) (entries ! j)"
    by blast
  have "\<forall>j < length (entry # entries). generated_record (index + j + 1) ((entry # entries) ! j)"
  proof (intro allI impI)
    fix j assume "j < length (entry # entries)"
    then show "generated_record (index + j + 1) ((entry # entries) ! j)"
      using entries(3) assemble_one_record [OF one] by (cases j) simp_all
  qed
  with entries(1,2) show ?case
    by (intro exI [of _ "entry # entries"]) simp
qed

lemma dict_rows_generated:
  "\<forall>entry \<in> set entries. map fst entry = csv_header \<Longrightarrow>
     dict_rows csv_header entries
       = (map (\<lambda>entry. map (\<lambda>key. csv_cell (dict_get_default entry key (PStr '''')))
                          csv_header) entries, None)"
  by (induction entries) (simp_all add: list_ex_iff)

lemma generated_record_cells:
  assumes "generated_record cid entry"
  shows "map (\<lambda>key. csv_cell (dict_get_default entry key (PStr ''''))) csv_header
           = [show_int (int cid), csv_cell (dict_get entry ''username''),
              csv_cell (dict_get entry ''comment_text'')]"
proof -
  from assms have keys: "map fst entry = [''comment_id'', ''username'', ''comment_text'']"
    and cid: "map_of entry ''comment_id'' = Some (PInt (int cid))"
    by (simp_all add: generated_record_def csv_header_def)
  from keys obtain u t where
    "map_of entry ''username'' = Some u" "map_of entry ''comment_text'' = Some t"
    by (cases entry; cases "tl entry"; cases "tl (tl entry)") (auto split: if_splits)
  with cid show ?thesis
    by (simp add: csv_header_def dict_get_default_def dict_get_def)
qed

text \<open>
  C9. When the script writes the file, the entries it wrote have the three fields
  \<open>comment_id\<close>, \<open>username\<close> and \<open>comment_text\<close> each, the entry at position \<open>j\<close> (from 0)
  has the \<open>comment_id\<close> \<open>j + 1\<close>, so that the identifiers are 1, 2, 3 and so on without a
  gap, and the file holds the header and one row of three cells for each entry, the
  first cell being the identifier in decimal digits.
\<close>

theorem generated_comment_ids_contiguous:
  assumes "data_generation client loads strip_splitlines fake_user_name write_error csv_text
             files = Inr (final_comments, files')"
  shows "(\<forall>j < length final_comments.
            map fst (final_comments ! j) = [''comment_id'', ''username'', ''comment_text'']
            \<and> map_of (final_comments ! j) ''comment_id'' = Some (PInt (int j + 1)))
         \<and> map (\<lambda>entry. dict_get entry ''comment_id'') final_comments
             = map (\<lambda>j. PInt (int j + 1)) [0 ..< length final_comments]
         \<and> files' OUTPUT_FILENAME
             = Text (csv_text (csv_header #
                 map (\<lambda>j. [show_int (int j + 1),
                            csv_cell (dict_get (final_comments ! j) ''username''),
                            csv_cell (dict_get (final_comments ! j) ''comment_text'')])
                   [0 ..< length final_comments]))"
proof -
  let ?items = "generate_all client loads strip_splitlines batch_starts 0 []"
  from assms have loop: "assemble_loop fake_user_name 0 ?items [] = Inr final_comments"
    by (auto simp: data_generation_def Let_def split: sum.splits option.splits prod.splits)
  from assemble_loop_records [OF loop]
  have entries: "\<forall>j < length final_comments. generated_record (j + 1) (final_comments ! j)"
    by auto
  then have keys: "\<forall>entry \<in> set final_comments. map fst entry = csv_header"
    by (auto simp: generated_record_def in_set_conv_nth)
  have fields: "\<forall>j < length final_comments.
            map fst (final_comments ! j) = [''comment_id'', ''username'', ''comment_text'']
            \<and> map_of (final_comments ! j) ''comment_id'' = Some (PInt (int j + 1))"
    using entries by (simp add: generated_record_def csv_header_def)
  have ids: "map (\<lambda>entry. dict_get entry ''comment_id'') final_comments
             = map (\<lambda>j. PInt (int j + 1)) [0 ..< length final_comments]"
    using fields by (intro nth_equalityI) (simp_all add: dict_get_def)
  have rows: "map (\<lambda>entry. map (\<lambda>key. csv_cell (dict_get_default entry key (PStr '''')))
                              csv_header) final_comments
              = map (\<lambda>j. [show_int (int j + 1),
                            csv_cell (dict_get (final_comments ! j) ''username''),
                            csv_cell (dict_get (final_comments ! j) ''comment_text'')])
                   [0 ..< length final_comments]"
  proof (rule nth_equalityI)
    show "length (map (\<lambda>entry. map (\<lambda>key. csv_cell (dict_get_default entry key (PStr '''')))
                              csv_header) final_comments)
            = length (map (\<lambda>j. [show_int (int j + 1),
                            csv_cell (dict_get (final_comments ! j) ''username''),
                            csv_cell (dict_get (final_comments ! j) ''comment_text'')])
                   [0 ..< length final_comments])"
      by simp
  next
    fix j
    assume "j < length (map (\<lambda>entry. map (\<lambda>key. csv_cell (dict_get_default entry key
                                (PStr ''''))) csv_header) final_comments)"
    then have j: "j < length final_comments" by simp
    with entries have "generated_record (j + 1) (final_comments ! j)" by simp
    from generated_record_cells [OF this] j
    show "map (\<lambda>entry. map (\<lambda>key. csv_cell (dict_get_default entry key (PStr '''')))
                              csv_header) final_comments ! j
            = map (\<lambda>j. [show_int (int j + 1),
                            csv_cell (dict_get (final_comments ! j) ''username''),
                            csv_cell (dict_get (final_comments ! j) ''comment_text'')])
                   [0 ..< length final_comments] ! j"
      by (simp add: add.commute)
  qed
  from assms loop have "files' OUTPUT_FILENAME
      = Text (csv_text (csv_header #
          map (\<lambda>entry. map (\<lambda>key. csv_cell (dict_get_default entry key (PStr '''')))
                            csv_header) final_comments))"
    by (auto simp: data_generation_def Let_def dict_rows_generated [OF keys]
        split: option.splits)
  with fields ids rows show ?thesis by simp
qed

text \<open>
  The script does write the file when every generated item is a JSON object and the
  file can be opened for writing.
\<close>

fun is_JObject :: "json_top \<Rightarrow> bool" where
  "is_JObject (JObject d) = True"
| "is_JObject v = False"

lemma assemble_loop_objects:
  "list_all is_JObject comments \<Longrightarrow>
     \<exists>final_comments. assemble_loop fake_user_name index comments acc = Inr final_comments"
proof (induction comments arbitrary: index acc)
  case Nil
  then show ?case by simp
next
  case (Cons comment rest)
  then obtain d where "comment = JObject d" by (cases comment) simp_all
  then obtain entry where "assemble_one fake_user_name index comment = Inr entry"
    by (simp add: assemble_one_def Let_def)
  with Cons show ?case by simp
qed

lemma data_generation_writes:
  assumes "list_all is_JObject (generate_all client loads strip_splitlines batch_starts 0 [])"
    and "write_error OUTPUT_FILENAME = None"
  shows "\<exists>final_comments files'.
           data_generation client loads strip_splitlines fake_user_name write_error csv_text
             files = Inr (final_comments, files')"
proof -
  let ?items = "generate_all client loads strip_splitlines batch_starts 0 []"
  from assemble_loop_objects [OF assms(1)] obtain final_comments where
    loop: "assemble_loop fake_user_name 0 ?items [] = Inr final_comments"
    by blast
  from assemble_loop_records [OF loop]
  have "\<forall>j < length final_comments. generated_record (j + 1) (final_comments ! j)"
    by auto
  then have keys: "\<forall>entry \<in> set final_comments. map fst entry = csv_header"
    by (auto simp: generated_record_def in_set_conv_nth)
  show ?thesis
    using loop assms(2) by (simp add: data_generation_def Let_def dict_rows_generated [OF keys])
qed

section \<open>The generator on a concrete run\<close>

lemma generate_all_concat:
  "generate_all client loads strip_splitlines starts n acc
     = acc @ concat (map (generate_comments_batch client loads strip_splitlines)
                       [n ..< n + length starts])"
proof (induction starts arbitrary: n acc)
  case Nil
  then show ?case by simp
next
  case (Cons i rest)
  have "[n ..< n + length (i # rest)] = n # [Suc n ..< Suc n + length rest]"
    by (simp add: upt_rec)
  with Cons show ?case by simp
qed

lemma length_batch_starts: "length batch_starts = 20"
  unfolding batch_starts_def NUM_COMMENTS_TO_GENERATE_def COMMENTS_PER_BATCH_def
  by code_simp

definition example_client :: "nat \<Rightarrow> api_response" where
  "example_client = (\<lambda>n. if n = 0 then Choice (Some ''two lines and a broken one'')
                          else NoChoices)"

definition example_lines :: "string \<Rightarrow> string list" where
  "example_lines = (\<lambda>content. [''line 1'', ''line 2'', ''line 3''])"

definition example_loads :: json_loads where
  "example_loads =
     (\<lambda>line. if line = ''line 1''
               then Inr (JObject [(''username'', PStr ''ann''),
                                  (''comment_text'', PStr ''hello there'')])
             else if line = ''line 2''
               then Inl (JSONDecodeError ''Expecting value: line 1 column 1 (char 0)'')
             else Inr (JObject [(''username'', PStr ''bob''),
                                (''comment_text'', PStr ''damn it'')]))"

lemma example_batches:
  "generate_comments_batch example_client example_loads example_lines n =
     (if n = 0
      then [JObject [(''username'', PStr ''ann''), (''comment_text'', PStr ''hello there'')],
            JObject [(''username'', PStr ''bob''), (''comment_text'', PStr ''damn it'')]]
      else [])"
  by (simp add: generate_comments_batch_def example_client_def example_lines_def
      example_loads_def parse_line_def dict_has_def)

lemma concat_example_batches:
  "concat (map (generate_comments_batch example_client example_loads example_lines)
             [0 ..< Suc k])
   = [JObject [(''username'', PStr ''ann''), (''comment_text'', PStr ''hello there'')],
      JObject [(''username'', PStr ''bob''), (''comment_text'', PStr ''damn it'')]]"
  by (induction k) (simp_all add: example_batches)

lemma example_generated:
  "generate_all example_client example_loads example_lines batch_starts 0 []
   = [JObject [(''username'', PStr ''ann''), (''comment_text'', PStr ''hello there'')],
      JObject [(''username'', PStr ''bob''), (''comment_text'', PStr ''damn it'')]]"
  using concat_example_batches [of 19]
  by (simp add: generate_all_concat length_batch_starts)

lemma example_run:
  "data_generation example_client example_loads example_lines (\<lambda>i. ''user'') (\<lambda>p. None)
     (\<lambda>t. ''table'') (\<lambda>p. Missing)
   = Inr ([[(''comment_id'', PInt 1), (''username'', PStr ''ann''),
            (''comment_text'', PStr ''hello there'')],
           [(''comment_id'', PInt 2), (''username'', PStr ''bob''),
            (''comment_text'', PStr ''damn it'')]],
          (\<lambda>p. Missing)(OUTPUT_FILENAME := Text ''table''))"
  by (simp add: data_generation_def example_generated assemble_one_def dict_has_def
      dict_get_def csv_header_def Let_def)

theorem generated_comment_ids_contiguous_witness:
  "(\<exists>final_comments files'.
      data_generation example_client example_loads example_lines (\<lambda>i. ''user'') (\<lambda>p. None)
        (\<lambda>t. ''table'') (\<lambda>p. Missing) = Inr (final_comments, files')
      \<and> length final_comments = 2
      \<and> map (\<lambda>entry. dict_get entry ''comment_id'') final_comments = [PInt 1, PInt 2])"
proof -
  let ?final = "[[(''comment_id'', PInt 1), (''username'', PStr ''ann''),
                  (''comment_text'', PStr ''hello there'')],
                 [(''comment_id'', PInt 2), (''username'', PStr ''bob''),
                  (''comment_text'', PStr ''damn it'')]]"
  from generated_comment_ids_contiguous [OF example_run]
  have "map (\<lambda>entry. dict_get entry ''comment_id'') ?final
          = map (\<lambda>j. PInt (int j + 1)) [0 ..< length ?final]"
    by blast
  also have "\<dots> = [PInt 1, PInt 2]" by (simp add: upt_rec)
  finally have ids: "map (\<lambda>entry. dict_get entry ''comment_id'') ?final = [PInt 1, PInt 2]" .
  have len: "length ?final = 2" by simp
  show ?thesis
    by (intro exI conjI) (rule example_run, rule len, rule ids)
qed

end
